theory Spec2Isabelle
  imports Complex_Main "HOL-Library.Word"
begin

section \<open>Numbers and small helpers\<close>

text \<open>
  The viewer computes on JavaScript numbers. They are modelled as mathematical reals:
  rounding, NaN and the infinities are outside this development, and every statement
  below is about the exact values the formulas of the source denote. Objects with two
  numeric fields (\<open>{theta, phi}\<close>, \<open>{nx, ny}\<close>, \<open>{x, y}\<close>) are pairs, first field first.
  Pixel counts (canvas and image sizes, loop indices) are integers.
\<close>

text \<open>\<open>Math.atan2(y, x)\<close> on finite arguments.\<close>

definition js_atan2 :: "real \<Rightarrow> real \<Rightarrow> real" where
  "js_atan2 y x =
     (if 0 < x then arctan (y / x)
      else if x < 0 \<and> 0 \<le> y then arctan (y / x) + pi
      else if x < 0 then arctan (y / x) - pi
      else if 0 < y then pi / 2
      else if y < 0 then - (pi / 2)
      else 0)"

text \<open>\<open>clamp(value, min, max) = Math.max(min, Math.min(max, value))\<close>.\<close>

definition clamp :: "real \<Rightarrow> real \<Rightarrow> real \<Rightarrow> real" where
  "clamp v lo hi = max lo (min hi v)"

definition degToRad :: "real \<Rightarrow> real" where
  "degToRad degrees = degrees * (pi / 180)"

definition radToDeg :: "real \<Rightarrow> real" where
  "radToDeg radians = radians * (180 / pi)"

text \<open>
  \<open>normalizeAngle\<close> is two loops in sequence: first \<open>while (angle > PI) angle -= 2 * PI\<close>,
  then \<open>while (angle < -PI) angle += 2 * PI\<close>. Each loop is a recursive function whose
  termination is proved from the number of whole turns left.
\<close>

function wrap_above :: "real \<Rightarrow> real" where
  "wrap_above angle = (if angle > pi then wrap_above (angle - 2 * pi) else angle)"
  by pat_completeness auto
termination
proof (relation "measure (\<lambda>a. nat \<lceil>a / (2 * pi)\<rceil>)")
  show "wf (measure (\<lambda>a. nat \<lceil>a / (2 * pi)\<rceil>))" by simp
next
  fix angle :: real
  assume gt: "angle > pi"
  have split: "(angle - 2 * pi) / (2 * pi) = angle / (2 * pi) - 1"
    by (simp add: diff_divide_distrib)
  have "0 < angle" using gt pi_gt_zero by linarith
  then have "angle / (2 * pi) > 0" using pi_gt_zero by (intro divide_pos_pos) simp_all
  then have pos: "\<lceil>angle / (2 * pi)\<rceil> \<ge> 1" by linarith
  have "\<lceil>(angle - 2 * pi) / (2 * pi)\<rceil> = \<lceil>angle / (2 * pi)\<rceil> - 1"
    unfolding split by simp
  with pos show "(angle - 2 * pi, angle) \<in> measure (\<lambda>a. nat \<lceil>a / (2 * pi)\<rceil>)"
    by simp
qed

function wrap_below :: "real \<Rightarrow> real" where
  "wrap_below angle = (if angle < - pi then wrap_below (angle + 2 * pi) else angle)"
  by pat_completeness auto
termination
proof (relation "measure (\<lambda>a. nat \<lceil>- (a / (2 * pi))\<rceil>)")
  show "wf (measure (\<lambda>a. nat \<lceil>- (a / (2 * pi))\<rceil>))" by simp
next
  fix angle :: real
  assume lt: "angle < - pi"
  define q where "q = - (angle / (2 * pi))"
  have split: "- ((angle + 2 * pi) / (2 * pi)) = q - 1"
    by (simp add: q_def add_divide_distrib)
  have "0 < - angle" using lt pi_gt_zero by linarith
  then have "0 < (- angle) / (2 * pi)" using pi_gt_zero by (intro divide_pos_pos) simp_all
  then have "0 < q" by (simp add: q_def)
  then have pos: "\<lceil>q\<rceil> \<ge> 1" by linarith
  have "\<lceil>q - 1\<rceil> = \<lceil>q\<rceil> - 1" by simp
  with pos have "nat \<lceil>q - 1\<rceil> < nat \<lceil>q\<rceil>" by simp
  then show "(angle + 2 * pi, angle) \<in> measure (\<lambda>a. nat \<lceil>- (a / (2 * pi))\<rceil>)"
    unfolding in_measure split q_def .
qed

declare wrap_above.simps [simp del]
declare wrap_below.simps [simp del]

definition normalizeAngle :: "real \<Rightarrow> real" where
  "normalizeAngle angle = wrap_below (wrap_above angle)"

section \<open>Projection strategies\<close>

datatype ProjectionType = RECTILINEAR | STEREOGRAPHIC | EQUIDISTANT | EQUISOLID

subsection \<open>StereographicProjection\<close>

definition Stereographic_viewportToAngles :: "real \<Rightarrow> real \<Rightarrow> real \<Rightarrow> real \<Rightarrow> real \<times> real" where
  "Stereographic_viewportToAngles nx ny fov aspectRatio =
     (let adjustedNx = nx * aspectRatio;
          r = sqrt (adjustedNx * adjustedNx + ny * ny)
      in if r < 0.0001 then (0, 0)
         else
           let maxAngle = fov / 2;
               angle = 2 * arctan (r / (2 * tan (maxAngle / 2)));
               theta = angle * (adjustedNx / r);
               phi = angle * (ny / r)
           in (theta, phi))"

definition Stereographic_anglesToViewport :: "real \<Rightarrow> real \<Rightarrow> real \<Rightarrow> real \<Rightarrow> real \<times> real" where
  "Stereographic_anglesToViewport theta phi fov aspectRatio =
     (let angle = sqrt (theta * theta + phi * phi)
      in if angle < 0.0001 then (0, 0)
         else
           let maxAngle = fov / 2;
               r = 2 * tan (angle / 2) * (2 * tan (maxAngle / 2));
               nx = r * (theta / angle);
               ny = r * (phi / angle)
           in (nx / aspectRatio, ny))"

definition Stereographic_getDragVelocity :: "real \<Rightarrow> real \<Rightarrow> real \<Rightarrow> real \<times> real" where
  "Stereographic_getDragVelocity nx ny baseSensitivity =
     (let r = sqrt (nx * nx + ny * ny);
          falloff = cos (r * pi / 4)
      in (baseSensitivity * falloff, baseSensitivity * falloff))"

subsection \<open>EquidistantProjection\<close>

definition Equidistant_viewportToAngles :: "real \<Rightarrow> real \<Rightarrow> real \<Rightarrow> real \<Rightarrow> real \<times> real" where
  "Equidistant_viewportToAngles nx ny fov aspectRatio =
     (let adjustedNx = nx * aspectRatio;
          r = sqrt (adjustedNx * adjustedNx + ny * ny)
      in if r < 0.0001 then (0, 0)
         else
           let maxRadius = sqrt (aspectRatio * aspectRatio + 1);
               angle = r * (fov / 2) / maxRadius;
               theta = angle * (adjustedNx / r);
               phi = angle * (ny / r)
           in (theta, phi))"

definition Equidistant_anglesToViewport :: "real \<Rightarrow> real \<Rightarrow> real \<Rightarrow> real \<Rightarrow> real \<times> real" where
  "Equidistant_anglesToViewport theta phi fov aspectRatio =
     (let angle = sqrt (theta * theta + phi * phi)
      in if angle < 0.0001 then (0, 0)
         else
           let maxRadius = sqrt (aspectRatio * aspectRatio + 1);
               r = angle * maxRadius / (fov / 2);
               nx = r * (theta / angle);
               ny = r * (phi / angle)
           in (nx / aspectRatio, ny))"

definition Equidistant_getDragVelocity :: "real \<Rightarrow> real \<Rightarrow> real \<Rightarrow> real \<times> real" where
  "Equidistant_getDragVelocity nx ny baseSensitivity =
     (let r = sqrt (nx * nx + ny * ny);
          falloff = 1 - (r * 0.15)
      in (baseSensitivity * max 0.5 falloff, baseSensitivity * max 0.5 falloff))"

subsection \<open>EquisolidProjection\<close>

definition Equisolid_viewportToAngles :: "real \<Rightarrow> real \<Rightarrow> real \<Rightarrow> real \<Rightarrow> real \<times> real" where
  "Equisolid_viewportToAngles nx ny fov aspectRatio =
     (let adjustedNx = nx * aspectRatio;
          r = sqrt (adjustedNx * adjustedNx + ny * ny)
      in if r < 0.0001 then (0, 0)
         else
           let angle = 2 * arcsin (min (r / 2) 1);
               theta = angle * (adjustedNx / r);
               phi = angle * (ny / r)
           in (theta, phi))"

definition Equisolid_anglesToViewport :: "real \<Rightarrow> real \<Rightarrow> real \<Rightarrow> real \<Rightarrow> real \<times> real" where
  "Equisolid_anglesToViewport theta phi fov aspectRatio =
     (let angle = sqrt (theta * theta + phi * phi)
      in if angle < 0.0001 then (0, 0)
         else
           let r = 2 * sin (angle / 2);
               nx = r * (theta / angle);
               ny = r * (phi / angle)
           in (nx / aspectRatio, ny))"

definition Equisolid_getDragVelocity :: "real \<Rightarrow> real \<Rightarrow> real \<Rightarrow> real \<times> real" where
  "Equisolid_getDragVelocity nx ny baseSensitivity =
     (let r = sqrt (nx * nx + ny * ny);
          falloff = 1 - (r * 0.2)
      in (baseSensitivity * max 0.6 falloff, baseSensitivity * max 0.6 falloff))"

subsection \<open>RectilinearProjection\<close>

definition Rectilinear_viewportToAngles :: "real \<Rightarrow> real \<Rightarrow> real \<Rightarrow> real \<Rightarrow> real \<times> real" where
  "Rectilinear_viewportToAngles nx ny fov aspectRatio =
     (let theta = js_atan2 (nx * aspectRatio * tan (fov / 2)) 1;
          phi = arctan (ny * tan (fov / 2))
      in (theta, phi))"

definition Rectilinear_anglesToViewport :: "real \<Rightarrow> real \<Rightarrow> real \<Rightarrow> real \<Rightarrow> real \<times> real" where
  "Rectilinear_anglesToViewport theta phi fov aspectRatio =
     (let nx = tan theta / (aspectRatio * tan (fov / 2));
          ny = tan phi / tan (fov / 2)
      in (nx, ny))"

definition Rectilinear_getDragVelocity :: "real \<Rightarrow> real \<Rightarrow> real \<Rightarrow> real \<times> real" where
  "Rectilinear_getDragVelocity nx ny baseSensitivity = (baseSensitivity, baseSensitivity)"

subsection \<open>The strategy registry\<close>

text \<open>
  \<open>getProjectionStrategy(type)\<close> looks the type up in a table that has an entry for each
  of the four members of the enumeration; the three functions below are the methods of
  the strategy it returns.
\<close>

definition viewportToAngles :: "ProjectionType \<Rightarrow> real \<Rightarrow> real \<Rightarrow> real \<Rightarrow> real \<Rightarrow> real \<times> real" where
  "viewportToAngles p =
     (case p of
        RECTILINEAR \<Rightarrow> Rectilinear_viewportToAngles
      | STEREOGRAPHIC \<Rightarrow> Stereographic_viewportToAngles
      | EQUIDISTANT \<Rightarrow> Equidistant_viewportToAngles
      | EQUISOLID \<Rightarrow> Equisolid_viewportToAngles)"

definition anglesToViewport :: "ProjectionType \<Rightarrow> real \<Rightarrow> real \<Rightarrow> real \<Rightarrow> real \<Rightarrow> real \<times> real" where
  "anglesToViewport p =
     (case p of
        RECTILINEAR \<Rightarrow> Rectilinear_anglesToViewport
      | STEREOGRAPHIC \<Rightarrow> Stereographic_anglesToViewport
      | EQUIDISTANT \<Rightarrow> Equidistant_anglesToViewport
      | EQUISOLID \<Rightarrow> Equisolid_anglesToViewport)"

definition getDragVelocity :: "ProjectionType \<Rightarrow> real \<Rightarrow> real \<Rightarrow> real \<Rightarrow> real \<times> real" where
  "getDragVelocity p =
     (case p of
        RECTILINEAR \<Rightarrow> Rectilinear_getDragVelocity
      | STEREOGRAPHIC \<Rightarrow> Stereographic_getDragVelocity
      | EQUIDISTANT \<Rightarrow> Equidistant_getDragVelocity
      | EQUISOLID \<Rightarrow> Equisolid_getDragVelocity)"


section \<open>Coordinate mapper\<close>

text \<open>
  \<open>projectToSource\<close>: viewport pixel to source sample. The two \<open>while\<close> loops that bring
  the longitude into range are the loops of \<open>normalizeAngle\<close>, written inline in the source.
\<close>

definition projectToSource ::
  "real \<Rightarrow> real \<Rightarrow> real \<Rightarrow> real \<Rightarrow> real \<Rightarrow> real \<Rightarrow> real \<Rightarrow> real \<Rightarrow> real \<Rightarrow> real \<Rightarrow> ProjectionType
     \<Rightarrow> real \<times> real" where
  "projectToSource x y width height imageWidth imageHeight yaw pitch zoom fov projectionType =
     (let nx = (2 * x / width) - 1;
          ny = (2 * y / height) - 1;
          aspectRatio = width / height;
          zoomedNx = nx / zoom;
          zoomedNy = ny / zoom;
          (theta, phi) = viewportToAngles projectionType zoomedNx zoomedNy fov aspectRatio;
          lon = wrap_below (wrap_above (theta + yaw));
          lat = max (- pi / 2) (min (pi / 2) (phi + pitch));
          srcX = ((lon + pi) / (2 * pi)) * imageWidth;
          srcY = ((lat + pi / 2) / pi) * imageHeight
      in (srcX, srcY))"

text \<open>
  \<open>projectToViewport\<close>: source pixel to viewport pixel, \<open>None\<close> for the source's \<open>null\<close>.
  The intermediate values are named as in the source so that the two visibility checks can
  be stated on them.
\<close>

definition viewport_normalized ::
  "real \<Rightarrow> real \<Rightarrow> real \<Rightarrow> real \<Rightarrow> real \<Rightarrow> real \<Rightarrow> real \<Rightarrow> real \<Rightarrow> real \<Rightarrow> ProjectionType
     \<Rightarrow> real \<times> real" where
  "viewport_normalized srcX srcY imageWidth imageHeight width height yaw pitch fov projectionType =
     (let lon = (srcX / imageWidth) * 2 * pi - pi;
          lat = (srcY / imageHeight) * pi - pi / 2;
          theta = normalizeAngle (lon - yaw);
          phi = lat - pitch;
          aspectRatio = width / height
      in anglesToViewport projectionType theta phi fov aspectRatio)"

definition viewport_pixel :: "real \<times> real \<Rightarrow> real \<Rightarrow> real \<Rightarrow> real \<Rightarrow> real \<times> real" where
  "viewport_pixel n width height zoom =
     (let zoomedNx = fst n * zoom;
          zoomedNy = snd n * zoom;
          x = ((zoomedNx + 1) / 2) * width;
          y = ((zoomedNy + 1) / 2) * height
      in (x, y))"

definition projectToViewport ::
  "real \<Rightarrow> real \<Rightarrow> real \<Rightarrow> real \<Rightarrow> real \<Rightarrow> real \<Rightarrow> real \<Rightarrow> real \<Rightarrow> real \<Rightarrow> real \<Rightarrow> ProjectionType
     \<Rightarrow> (real \<times> real) option" where
  "projectToViewport srcX srcY imageWidth imageHeight width height yaw pitch zoom fov projectionType =
     (let n = viewport_normalized srcX srcY imageWidth imageHeight width height yaw pitch fov
                projectionType
      in if \<bar>fst n\<bar> > 1.2 \<or> \<bar>snd n\<bar> > 1.2 then None
         else
           let (x, y) = viewport_pixel n width height zoom
           in if x < - 100 \<or> x > width + 100 \<or> y < - 100 \<or> y > height + 100 then None
              else Some (x, y))"

section \<open>Label overlay\<close>

record PanoramaLabel =
  label_id :: string
  label_x :: real
  label_y :: real
  label_w :: real
  label_h :: real
  label_title :: "string option"

text \<open>What the label pass sends to the 2D context, in order.\<close>

datatype draw_cmd =
  FillRect real real real real
  | StrokeRect real real real real
  | FillText string real real

text \<open>
  \<open>Math.min(...xs)\<close> and \<open>Math.max(...xs)\<close> on a list that the caller has checked to be
  non-empty.
\<close>

fun Math_min :: "real list \<Rightarrow> real" where
  "Math_min [v] = v"
| "Math_min (v # vs) = min v (Math_min vs)"

fun Math_max :: "real list \<Rightarrow> real" where
  "Math_max [v] = v"
| "Math_max (v # vs) = max v (Math_max vs)"

definition label_corners :: "PanoramaLabel \<Rightarrow> (real \<times> real) list" where
  "label_corners label =
     [(label_x label, label_y label),
      (label_x label + label_w label, label_y label),
      (label_x label, label_y label + label_h label),
      (label_x label + label_w label, label_y label + label_h label)]"

definition projected_corners ::
  "real \<Rightarrow> real \<Rightarrow> real \<Rightarrow> real \<Rightarrow> real \<Rightarrow> real \<Rightarrow> real \<Rightarrow> real \<Rightarrow> ProjectionType \<Rightarrow> PanoramaLabel
     \<Rightarrow> (real \<times> real) option list" where
  "projected_corners viewportWidth viewportHeight imageWidth imageHeight yaw pitch zoom fov
       projectionType label =
     map (\<lambda>corner. projectToViewport (fst corner) (snd corner) imageWidth imageHeight
                      viewportWidth viewportHeight yaw pitch zoom fov projectionType)
       (label_corners label)"

text \<open>A title is drawn only when \<open>label.title\<close> is truthy: present and not the empty string.\<close>

definition title_truthy :: "string option \<Rightarrow> bool" where
  "title_truthy t = (case t of None \<Rightarrow> False | Some s \<Rightarrow> s \<noteq> [])"

text \<open>The drawing half of one iteration of the loop over the labels.\<close>

definition draw_label :: "(real \<times> real) option list \<Rightarrow> string option \<Rightarrow> draw_cmd list" where
  "draw_label projectedCorners title =
     (let visibleCorners = filter (\<lambda>c. c \<noteq> None) projectedCorners
      in if length visibleCorners = 0 then []
         else
           let xs = map (\<lambda>c. fst (the c)) visibleCorners;
               ys = map (\<lambda>c. snd (the c)) visibleCorners;
               minX = Math_min xs;
               maxX = Math_max xs;
               minY = Math_min ys;
               maxY = Math_max ys;
               rectX = minX;
               rectY = minY;
               rectW = maxX - minX;
               rectH = maxY - minY
           in [FillRect rectX rectY rectW rectH, StrokeRect rectX rectY rectW rectH] @
              (if title_truthy title \<and> rectW > 50 \<and> rectH > 20
               then [FillText (the title) (rectX + rectW / 2) (rectY + rectH / 2)]
               else []))"

definition render_label ::
  "real \<Rightarrow> real \<Rightarrow> real \<Rightarrow> real \<Rightarrow> real \<Rightarrow> real \<Rightarrow> real \<Rightarrow> real \<Rightarrow> ProjectionType \<Rightarrow> PanoramaLabel
     \<Rightarrow> draw_cmd list" where
  "render_label viewportWidth viewportHeight imageWidth imageHeight yaw pitch zoom fov
       projectionType label =
     draw_label
       (projected_corners viewportWidth viewportHeight imageWidth imageHeight yaw pitch zoom fov
          projectionType label)
       (label_title label)"

definition LabelRenderer_render ::
  "PanoramaLabel list \<Rightarrow> real \<Rightarrow> real \<Rightarrow> real \<Rightarrow> real \<Rightarrow> real \<Rightarrow> real \<Rightarrow> real \<Rightarrow> real
     \<Rightarrow> ProjectionType \<Rightarrow> draw_cmd list" where
  "LabelRenderer_render labels viewportWidth viewportHeight imageWidth imageHeight yaw pitch zoom
       fov projectionType =
     concat (map (render_label viewportWidth viewportHeight imageWidth imageHeight yaw pitch zoom
                    fov projectionType) labels)"

section \<open>Rasterizer\<close>

text \<open>
  The remainder operator \<open>%\<close> on integer-valued numbers takes the sign of the dividend.
  (A zero divisor gives NaN in the source; image widths are at least 512 when rendering.)
\<close>

definition js_rem :: "int \<Rightarrow> int \<Rightarrow> int" where
  "js_rem a b = sgn a * (\<bar>a\<bar> mod \<bar>b\<bar>)"

text \<open>
  Reading a \<open>Uint8ClampedArray\<close> outside its bounds gives \<open>undefined\<close>, which is stored
  into the destination array as 0.
\<close>

definition byte_at :: "8 word list \<Rightarrow> int \<Rightarrow> 8 word" where
  "byte_at a i = (if 0 \<le> i \<and> nat i < length a then a ! nat i else 0)"

definition wrappedSrcX :: "int \<Rightarrow> real \<Rightarrow> int" where
  "wrappedSrcX imageWidth sampleX =
     (let srcX = \<lfloor>sampleX\<rfloor> in js_rem (js_rem srcX imageWidth + imageWidth) imageWidth)"

definition wrappedSrcY :: "int \<Rightarrow> real \<Rightarrow> int" where
  "wrappedSrcY imageHeight sampleY =
     (let srcY = \<lfloor>sampleY\<rfloor> in max 0 (min (imageHeight - 1) srcY))"

definition srcIndex :: "int \<Rightarrow> int \<Rightarrow> real \<times> real \<Rightarrow> int" where
  "srcIndex imageWidth imageHeight sample =
     (wrappedSrcY imageHeight (snd sample) * imageWidth + wrappedSrcX imageWidth (fst sample)) * 4"

text \<open>The body of the inner loop: four writes into the destination array.\<close>

definition write_pixel :: "8 word list \<Rightarrow> int \<Rightarrow> int \<Rightarrow> nat \<Rightarrow> nat \<Rightarrow> (nat \<Rightarrow> nat \<Rightarrow> real \<times> real)
    \<Rightarrow> nat \<Rightarrow> 8 word list \<Rightarrow> 8 word list" where
  "write_pixel source imageWidth imageHeight width y sampler x dest =
     (let sample = sampler x y;
          si = srcIndex imageWidth imageHeight sample;
          destIndex = (y * width + x) * 4
      in dest[destIndex := byte_at source si,
              destIndex + 1 := byte_at source (si + 1),
              destIndex + 2 := byte_at source (si + 2),
              destIndex + 3 := 255])"

definition render_row :: "8 word list \<Rightarrow> int \<Rightarrow> int \<Rightarrow> nat \<Rightarrow> (nat \<Rightarrow> nat \<Rightarrow> real \<times> real)
    \<Rightarrow> nat \<Rightarrow> 8 word list \<Rightarrow> 8 word list" where
  "render_row source imageWidth imageHeight width sampler y dest =
     fold (write_pixel source imageWidth imageHeight width y sampler) [0..<width] dest"

definition render_pixels :: "8 word list \<Rightarrow> int \<Rightarrow> int \<Rightarrow> nat \<Rightarrow> nat \<Rightarrow> (nat \<Rightarrow> nat \<Rightarrow> real \<times> real)
    \<Rightarrow> 8 word list" where
  "render_pixels source imageWidth imageHeight width height sampler =
     fold (render_row source imageWidth imageHeight width sampler) [0..<height]
       (replicate (width * height * 4) 0)"

text \<open>The call of \<open>projectToSource\<close> in the loop body, for destination pixel \<open>(x, y)\<close>.\<close>

definition pixel_sampler ::
  "nat \<Rightarrow> nat \<Rightarrow> int \<Rightarrow> int \<Rightarrow> real \<Rightarrow> real \<Rightarrow> real \<Rightarrow> real \<Rightarrow> ProjectionType \<Rightarrow> nat \<Rightarrow> nat
     \<Rightarrow> real \<times> real" where
  "pixel_sampler width height imageWidth imageHeight yaw pitch zoom fov projectionType x y =
     projectToSource (real x) (real y) (real width) (real height) (real_of_int imageWidth)
       (real_of_int imageHeight) (degToRad yaw) (degToRad pitch) zoom fov projectionType"

section \<open>The renderer\<close>

definition MIN_CANVAS_SIZE :: int where "MIN_CANVAS_SIZE = 100"
definition MIN_IMAGE_WIDTH :: nat where "MIN_IMAGE_WIDTH = 512"
definition MIN_IMAGE_HEIGHT :: nat where "MIN_IMAGE_HEIGHT = 256"
definition MAX_IMAGE_WIDTH :: nat where "MAX_IMAGE_WIDTH = 8192"
definition MAX_IMAGE_HEIGHT :: nat where "MAX_IMAGE_HEIGHT = 4096"
definition MIN_PITCH :: real where "MIN_PITCH = - 90"
definition MAX_PITCH :: real where "MAX_PITCH = 90"

record ViewState =
  yaw :: real
  pitch :: real
  zoom :: real
  isDragging :: bool

text \<open>The fields of the configuration that are read after construction.\<close>

record RendererConfig =
  minZoom :: real
  maxZoom :: real
  fov :: real
  enableKeyboard :: bool
  sensitivity :: real

text \<open>A decoded image: its size and its RGBA bytes, row by row.\<close>

record ImageElement =
  img_width :: nat
  img_height :: nat
  img_data :: "8 word list"

text \<open>
  The fields of \<open>FishEyePanoramaRenderer\<close>. \<open>framePending\<close> stands for
  \<open>animationFrameId !== null\<close>; \<open>canvasData\<close> and \<open>canvasOverlay\<close> are what the last render
  put on the canvas (the pixel buffer and the label drawing commands).
\<close>

record Renderer =
  canvas_width :: nat
  canvas_height :: nat
  canvasData :: "8 word list"
  canvasOverlay :: "draw_cmd list"
  image_el :: "ImageElement option"
  state :: ViewState
  config :: RendererConfig
  isDirty :: bool
  framePending :: bool
  dragStart :: "(real \<times> real) option"
  dragStartState :: "(real \<times> real) option"
  sourceData :: "8 word list option"
  labels :: "PanoramaLabel list"
  projectionType :: ProjectionType

datatype renderer_error =
  ImageTooSmall nat nat
  | ImageTooLarge nat nat
  | ImageLoadFailed string
  | CanvasTooSmall int int

text \<open>
  \<open>render\<close>: nothing unless dirty and an image is set; otherwise cache the source pixels on
  the first pass, fill the destination buffer, draw the labels and clear the dirty flag.
  The offscreen canvas that holds the source pixels is taken to provide its 2D context;
  it and the cached pixel data are created together, so one field stands for both.
\<close>

definition render :: "Renderer \<Rightarrow> Renderer" where
  "render r =
     (if \<not> isDirty r \<or> image_el r = None then r
      else
        let img = the (image_el r);
            r1 = (if sourceData r = None then r\<lparr>sourceData := Some (img_data img)\<rparr> else r);
            source = the (sourceData r1);
            imageWidth = int (img_width img);
            imageHeight = int (img_height img);
            st = state r1;
            f = degToRad (fov (config r1));
            dest = render_pixels source imageWidth imageHeight (canvas_width r1) (canvas_height r1)
                     (pixel_sampler (canvas_width r1) (canvas_height r1) imageWidth imageHeight
                        (yaw st) (pitch st) (zoom st) f (projectionType r1));
            overlay = LabelRenderer_render (labels r1) (real (canvas_width r1))
                        (real (canvas_height r1)) (real_of_int imageWidth) (real_of_int imageHeight)
                        (degToRad (yaw st)) (degToRad (pitch st)) (zoom st) f (projectionType r1)
        in r1\<lparr>canvasData := dest, canvasOverlay := overlay, isDirty := False\<rparr>)"

definition scheduleRender :: "Renderer \<Rightarrow> Renderer" where
  "scheduleRender r = (if framePending r then r else r\<lparr>framePending := True\<rparr>)"

definition markDirty :: "Renderer \<Rightarrow> Renderer" where
  "markDirty r = scheduleRender (r\<lparr>isDirty := True\<rparr>)"

text \<open>The callback that the scheduled animation frame runs.\<close>

definition animationFrame :: "Renderer \<Rightarrow> Renderer" where
  "animationFrame r = (render r)\<lparr>framePending := False\<rparr>"

text \<open>
  \<open>loadImage\<close>: the platform either decodes the image (\<open>Some img\<close>, the \<open>onload\<close> handler
  runs) or fails (\<open>None\<close>, the \<open>onerror\<close> handler runs). The result is the settled promise
  together with the renderer afterwards.
\<close>

definition loadImage :: "string \<Rightarrow> ImageElement option \<Rightarrow> Renderer \<Rightarrow> (renderer_error + unit) \<times> Renderer" where
  "loadImage src loaded r =
     (case loaded of
        None \<Rightarrow> (Inl (ImageLoadFailed src), r)
      | Some img \<Rightarrow>
          if img_width img < MIN_IMAGE_WIDTH \<or> img_height img < MIN_IMAGE_HEIGHT
          then (Inl (ImageTooSmall (img_width img) (img_height img)), r)
          else if img_width img > MAX_IMAGE_WIDTH \<or> img_height img > MAX_IMAGE_HEIGHT
          then (Inl (ImageTooLarge (img_width img) (img_height img)), r)
          else (Inr (), render (r\<lparr>image_el := Some img, isDirty := True\<rparr>)))"

definition resize :: "int \<Rightarrow> int \<Rightarrow> Renderer \<Rightarrow> (renderer_error + unit) \<times> Renderer" where
  "resize width height r =
     (if width < MIN_CANVAS_SIZE \<or> height < MIN_CANVAS_SIZE
      then (Inl (CanvasTooSmall width height), r)
      else (Inr (), markDirty (r\<lparr>canvas_width := nat width, canvas_height := nat height\<rparr>)))"

subsection \<open>Input handlers\<close>

record InputData =
  data_x :: "real option"
  data_y :: "real option"
  data_dx :: "real option"
  data_dy :: "real option"
  data_deltaY :: "real option"
  data_key :: "string option"
  data_touches :: "(real \<times> real) list option"

definition no_data :: InputData where
  "no_data = \<lparr>data_x = None, data_y = None, data_dx = None, data_dy = None, data_deltaY = None,
               data_key = None, data_touches = None\<rparr>"

datatype InputType =
  MouseDown | MouseMove | MouseUp | MouseLeave | Wheel | TouchStart | TouchMove | TouchEnd | KeyDown

definition handleMouseDown :: "InputData \<Rightarrow> Renderer \<Rightarrow> Renderer" where
  "handleMouseDown d r =
     (case (data_x d, data_y d) of
        (Some px, Some py) \<Rightarrow>
          r\<lparr>dragStart := Some (px, py),
            dragStartState := Some (yaw (state r), pitch (state r)),
            state := (state r)\<lparr>isDragging := True\<rparr>\<rparr>
      | _ \<Rightarrow> r)"

definition handleMouseMove :: "InputData \<Rightarrow> Renderer \<Rightarrow> Renderer" where
  "handleMouseMove d r =
     (if \<not> isDragging (state r) then r
      else
        case (data_dx d, data_dy d) of
          (Some dx, Some dy) \<Rightarrow>
            let baseSensitivity = sensitivity (config r);
                velocity = getDragVelocity (projectionType r) 0 0 baseSensitivity;
                yaw1 = yaw (state r) - dx * fst velocity;
                pitch1 = pitch (state r) - dy * snd velocity;
                pitch2 = clamp pitch1 MIN_PITCH MAX_PITCH;
                yaw2 = radToDeg (normalizeAngle (degToRad yaw1))
            in markDirty (r\<lparr>state := (state r)\<lparr>yaw := yaw2, pitch := pitch2\<rparr>\<rparr>)
        | _ \<Rightarrow> r)"

definition handleMouseUp :: "Renderer \<Rightarrow> Renderer" where
  "handleMouseUp r =
     r\<lparr>state := (state r)\<lparr>isDragging := False\<rparr>, dragStart := None, dragStartState := None\<rparr>"

definition handleWheel :: "InputData \<Rightarrow> Renderer \<Rightarrow> Renderer" where
  "handleWheel d r =
     (case data_deltaY d of
        Some deltaY \<Rightarrow>
          let zoomDelta = (if deltaY > 0 then - 0.1 else 0.1)
          in markDirty (r\<lparr>state := (state r)\<lparr>zoom :=
               clamp (zoom (state r) + zoomDelta) (minZoom (config r)) (maxZoom (config r))\<rparr>\<rparr>)
      | None \<Rightarrow> r)"

definition handleTouchStart :: "InputData \<Rightarrow> Renderer \<Rightarrow> Renderer" where
  "handleTouchStart d r =
     (case data_touches d of
        Some (touch # _) \<Rightarrow>
          handleMouseDown (no_data\<lparr>data_x := Some (fst touch), data_y := Some (snd touch)\<rparr>) r
      | _ \<Rightarrow> r)"

definition handleTouchMove :: "InputData \<Rightarrow> Renderer \<Rightarrow> Renderer" where
  "handleTouchMove d r =
     (case data_touches d of
        Some (touch # _) \<Rightarrow>
          (case dragStart r of
             Some start \<Rightarrow>
               let dx = fst touch - fst start;
                   dy = snd touch - snd start;
                   r1 = handleMouseMove (no_data\<lparr>data_dx := Some dx, data_dy := Some dy\<rparr>) r
               in r1\<lparr>dragStart := Some touch,
                     dragStartState := Some (yaw (state r1), pitch (state r1))\<rparr>
           | None \<Rightarrow> r)
      | _ \<Rightarrow> r)"

definition handleTouchEnd :: "Renderer \<Rightarrow> Renderer" where
  "handleTouchEnd r = handleMouseUp r"

definition handleKeyDown :: "InputData \<Rightarrow> Renderer \<Rightarrow> Renderer" where
  "handleKeyDown d r =
     (if \<not> enableKeyboard (config r) then r
      else
        let step = 5;
            st = state r;
            (st1, changed) =
              (if data_key d = Some ''ArrowLeft'' then (st\<lparr>yaw := yaw st - step\<rparr>, True)
               else if data_key d = Some ''ArrowRight'' then (st\<lparr>yaw := yaw st + step\<rparr>, True)
               else if data_key d = Some ''ArrowUp''
                 then (st\<lparr>pitch := min MAX_PITCH (pitch st + step)\<rparr>, True)
               else if data_key d = Some ''ArrowDown''
                 then (st\<lparr>pitch := max MIN_PITCH (pitch st - step)\<rparr>, True)
               else (st, False))
        in if changed
           then markDirty (r\<lparr>state := st1\<lparr>yaw := radToDeg (normalizeAngle (degToRad (yaw st1)))\<rparr>\<rparr>)
           else r)"

definition handleInput :: "InputType \<Rightarrow> InputData \<Rightarrow> Renderer \<Rightarrow> Renderer" where
  "handleInput t d r =
     (case t of
        MouseDown \<Rightarrow> handleMouseDown d r
      | MouseMove \<Rightarrow> handleMouseMove d r
      | MouseUp \<Rightarrow> handleMouseUp r
      | MouseLeave \<Rightarrow> handleMouseUp r
      | Wheel \<Rightarrow> handleWheel d r
      | TouchStart \<Rightarrow> handleTouchStart d r
      | TouchMove \<Rightarrow> handleTouchMove d r
      | TouchEnd \<Rightarrow> handleTouchEnd r
      | KeyDown \<Rightarrow> handleKeyDown d r)"

definition getState :: "Renderer \<Rightarrow> ViewState" where
  "getState r = state r"

text \<open>\<open>setState\<close> takes a partial view state; its \<open>isDragging\<close> component is never read.\<close>

record PartialViewState =
  new_yaw :: "real option"
  new_pitch :: "real option"
  new_zoom :: "real option"

definition setState :: "PartialViewState \<Rightarrow> Renderer \<Rightarrow> Renderer" where
  "setState partialState r =
     (let s1 = (case new_yaw partialState of
                  Some v \<Rightarrow> (state r)\<lparr>yaw := v\<rparr>
                | None \<Rightarrow> state r);
          s2 = (case new_pitch partialState of
                  Some v \<Rightarrow> s1\<lparr>pitch := clamp v MIN_PITCH MAX_PITCH\<rparr>
                | None \<Rightarrow> s1);
          s3 = (case new_zoom partialState of
                  Some v \<Rightarrow> s2\<lparr>zoom := clamp v (minZoom (config r)) (maxZoom (config r))\<rparr>
                | None \<Rightarrow> s2)
      in markDirty (r\<lparr>state := s3\<rparr>))"

subsection \<open>Construction\<close>

text \<open>
  The constructor, for a canvas of the given size whose 2D context is available. The
  configuration arrives with its defaults already filled in (\<open>default_config\<close> holds the
  defaults of the source); the initial angles, zoom and projection type are the
  configuration fields that are read only here.
\<close>

definition default_config :: RendererConfig where
  "default_config = \<lparr>minZoom = 0.5, maxZoom = 3.0, fov = 90, enableKeyboard = True,
                      sensitivity = 0.5\<rparr>"

definition construct :: "nat \<Rightarrow> nat \<Rightarrow> real \<Rightarrow> real \<Rightarrow> real \<Rightarrow> ProjectionType \<Rightarrow> RendererConfig
    \<Rightarrow> Renderer" where
  "construct canvasWidth canvasHeight initialYaw initialPitch initialZoom ptype cfg =
     \<lparr>canvas_width = canvasWidth,
      canvas_height = canvasHeight,
      canvasData = replicate (canvasWidth * canvasHeight * 4) 0,
      canvasOverlay = [],
      image_el = None,
      state = \<lparr>yaw = initialYaw,
                pitch = clamp initialPitch MIN_PITCH MAX_PITCH,
                zoom = clamp initialZoom (minZoom cfg) (maxZoom cfg),
                isDragging = False\<rparr>,
      config = cfg,
      isDirty = True,
      framePending = False,
      dragStart = None,
      dragStartState = None,
      sourceData = None,
      labels = [],
      projectionType = ptype\<rparr>"

text \<open>An image of the given size with every byte 255, for concrete instances.\<close>

definition white_image :: "nat \<Rightarrow> nat \<Rightarrow> ImageElement" where
  "white_image w h = \<lparr>img_width = w, img_height = h, img_data = replicate (w * h * 4) 255\<rparr>"

section \<open>The projection table of the specification\<close>

text \<open>
  The formulas of the specification's table, written from its words: the radius
  \<open>r = sqrt((nx * aspectRatio)^2 + ny^2)\<close>, the forward angle and the inverse radius of
  the three radial projections, and the forward mapping with its decomposition
  \<open>theta = angle * (nx * aspectRatio) / r\<close>, \<open>phi = angle * ny / r\<close>.
\<close>

definition spec_radius :: "real \<Rightarrow> real \<Rightarrow> real \<Rightarrow> real" where
  "spec_radius nx ny aspectRatio = sqrt ((nx * aspectRatio)\<^sup>2 + ny\<^sup>2)"

fun spec_forward_angle :: "ProjectionType \<Rightarrow> real \<Rightarrow> real \<Rightarrow> real \<Rightarrow> real" where
  "spec_forward_angle STEREOGRAPHIC r fv aspect = 2 * arctan (r / (2 * tan (fv / 4)))"
| "spec_forward_angle EQUIDISTANT r fv aspect = r * (fv / 2) / sqrt (aspect\<^sup>2 + 1)"
| "spec_forward_angle EQUISOLID r fv aspect = 2 * arcsin (min (r / 2) 1)"

fun spec_inverse_radius :: "ProjectionType \<Rightarrow> real \<Rightarrow> real \<Rightarrow> real \<Rightarrow> real" where
  "spec_inverse_radius STEREOGRAPHIC angle fv aspect = 2 * tan (angle / 2) * 2 * tan (fv / 4)"
| "spec_inverse_radius EQUIDISTANT angle fv aspect = angle * sqrt (aspect\<^sup>2 + 1) / (fv / 2)"
| "spec_inverse_radius EQUISOLID angle fv aspect = 2 * sin (angle / 2)"

definition spec_viewportToAngles :: "ProjectionType \<Rightarrow> real \<Rightarrow> real \<Rightarrow> real \<Rightarrow> real \<Rightarrow> real \<times> real" where
  "spec_viewportToAngles p nx ny fv aspectRatio =
     (if p = RECTILINEAR
      then (arctan (nx * aspectRatio * tan (fv / 2)), arctan (ny * tan (fv / 2)))
      else
        let r = spec_radius nx ny aspectRatio
        in if r < 1 / 10000 then (0, 0)
           else
             let angle = spec_forward_angle p r fv aspectRatio
             in (angle * (nx * aspectRatio) / r, angle * ny / r))"

section \<open>Notions used in the statements\<close>

text \<open>
  The visible corners of a label as a set of points, and the axis-aligned bounding box
  of a set of points as \<open>(x, y, width, height)\<close>.
\<close>

definition visible_points :: "(real \<times> real) option list \<Rightarrow> (real \<times> real) set" where
  "visible_points projectedCorners = (\<Union>c \<in> set projectedCorners. set_option c)"

definition bounding_box :: "(real \<times> real) set \<Rightarrow> real \<times> real \<times> real \<times> real" where
  "bounding_box V =
     (Min (fst ` V), Min (snd ` V), Max (fst ` V) - Min (fst ` V), Max (snd ` V) - Min (snd ` V))"

text \<open>
  Byte \<open>c\<close> (0 to 3: red, green, blue, alpha) that the loop body writes for destination
  pixel \<open>(x, y)\<close>.
\<close>

definition pixel_byte :: "8 word list \<Rightarrow> int \<Rightarrow> int \<Rightarrow> (nat \<Rightarrow> nat \<Rightarrow> real \<times> real) \<Rightarrow> nat \<Rightarrow> nat \<Rightarrow> nat \<Rightarrow> 8 word" where
  "pixel_byte source imageWidth imageHeight sampler x y c =
     (if c = 3 then 255 else byte_at source (srcIndex imageWidth imageHeight (sampler x y) + int c))"

text \<open>The keys that \<open>handleKeyDown\<close> reacts to.\<close>

definition arrow_keys :: "string list" where
  "arrow_keys = [''ArrowLeft'', ''ArrowRight'', ''ArrowUp'', ''ArrowDown'']"

text \<open>
  Concrete inputs: a renderer built with the default configuration on an 800 by 600
  canvas after a mouse-down, and a titled label covering an eighth of the width and a
  quarter of the height of a 1024 by 512 panorama, starting at its centre.
\<close>

definition dragging_renderer :: Renderer where
  "dragging_renderer =
     handleInput MouseDown (no_data\<lparr>data_x := Some 10, data_y := Some 20\<rparr>)
       (construct 800 600 0 0 1 EQUIDISTANT default_config)"

definition example_label :: PanoramaLabel where
  "example_label = \<lparr>label_id = ''a'', label_x = 512, label_y = 256, label_w = 128, label_h = 128,
                     label_title = Some ''A''\<rparr>"

text \<open>
  The round trip of a normalized viewport coordinate: forward through
  \<open>viewportToAngles\<close>, back through \<open>anglesToViewport\<close> of the same strategy.
\<close>

definition viewport_roundtrip :: "ProjectionType \<Rightarrow> real \<Rightarrow> real \<Rightarrow> real \<Rightarrow> real \<Rightarrow> real \<times> real" where
  "viewport_roundtrip p nx ny fv aspectRatio =
     (case viewportToAngles p nx ny fv aspectRatio of
        (theta, phi) \<Rightarrow> anglesToViewport p theta phi fv aspectRatio)"

section \<open>Basic facts\<close>

lemma clamp_bounds: "lo \<le> hi \<Longrightarrow> lo \<le> clamp v lo hi \<and> clamp v lo hi \<le> hi"
  by (simp add: clamp_def)

subsection \<open>Round trips of the projection strategies\<close>

lemma radial_norm:
  fixes a b A :: real
  assumes r: "r = sqrt (a * a + b * b)" and pos: "0 < r"
  shows "sqrt (A * (a / r) * (A * (a / r)) + A * (b / r) * (A * (b / r))) = \<bar>A\<bar>"
proof -
  have sq: "r * r = a * a + b * b"
    using r by (metis abs_of_nonneg add_nonneg_nonneg real_sqrt_mult_self zero_le_square)
  have "A * (a / r) * (A * (a / r)) + A * (b / r) * (A * (b / r)) = (A * A) * ((a * a + b * b) / (r * r))"
    using pos by (simp add: field_simps)
  also have "\<dots> = A * A" using pos unfolding sq [symmetric] by simp
  finally show ?thesis by (simp add: real_sqrt_mult_self)
qed

lemma equidistant_roundtrip:
  assumes fv: "0 < fv" and ar: "0 < ar"
    and r: "1 / 10000 \<le> sqrt (nx * ar * (nx * ar) + ny * ny)"
    and ang: "1 / 10000 \<le> sqrt (nx * ar * (nx * ar) + ny * ny) * (fv / 2) / sqrt (ar * ar + 1)"
  shows "(case Equidistant_viewportToAngles nx ny fv ar of (theta, phi) \<Rightarrow>
           Equidistant_anglesToViewport theta phi fv ar) = (nx, ny)"
proof -
  define r where "r = sqrt (nx * ar * (nx * ar) + ny * ny)"
  define M where "M = sqrt (ar * ar + 1)"
  define A where "A = r * (fv / 2) / M"
  have rpos: "0 < r" using r unfolding r_def by linarith
  have Mpos: "0 < M" unfolding M_def by (simp add: add_nonneg_pos)
  have Apos: "1 / 10000 \<le> A" using ang unfolding A_def r_def M_def .
  have norm: "sqrt (A * (nx * ar / r) * (A * (nx * ar / r)) + A * (ny / r) * (A * (ny / r))) = A"
    using radial_norm [OF r_def rpos, of A] Apos by simp
  have fwd: "Equidistant_viewportToAngles nx ny fv ar = (A * (nx * ar / r), A * (ny / r))"
    using r unfolding Equidistant_viewportToAngles_def Let_def r_def [symmetric] M_def [symmetric] A_def [symmetric]
    by simp
  have inv_r: "A * M / (fv / 2) = r" unfolding A_def using fv Mpos by simp
  have "Equidistant_anglesToViewport (A * (nx * ar / r)) (A * (ny / r)) fv ar = (nx, ny)"
    unfolding Equidistant_anglesToViewport_def Let_def norm M_def [symmetric] inv_r
    using Apos rpos ar by simp
  then show ?thesis by (simp add: fwd)
qed

lemma equisolid_angle_ge:
  assumes "0 \<le> x" "x \<le> 1"
  shows "x \<le> arcsin x"
proof -
  have x1: "x \<le> pi / 2" using assms pi_ge_two by linarith
  have "sin x \<le> x" using assms by (simp add: sin_x_le_x)
  moreover have "- 1 \<le> sin x" by simp
  ultimately have "arcsin (sin x) \<le> arcsin x" using assms by (intro arcsin_le_arcsin) simp_all
  moreover have "arcsin (sin x) = x" using assms x1 by (intro arcsin_sin) simp_all
  ultimately show ?thesis by simp
qed

lemma equisolid_roundtrip:
  assumes ar: "0 < ar"
    and r: "1 / 10000 \<le> sqrt (nx * ar * (nx * ar) + ny * ny)"
    and r2: "sqrt (nx * ar * (nx * ar) + ny * ny) \<le> 2"
  shows "(case Equisolid_viewportToAngles nx ny fv ar of (theta, phi) \<Rightarrow>
           Equisolid_anglesToViewport theta phi fv ar) = (nx, ny)"
proof -
  define r where "r = sqrt (nx * ar * (nx * ar) + ny * ny)"
  define A where "A = 2 * arcsin (r / 2)"
  have rpos: "0 < r" and rlo: "1 / 10000 \<le> r" and rhi: "r \<le> 2"
    using r r2 unfolding r_def by linarith+
  have "r / 2 \<le> arcsin (r / 2)" using rpos rhi by (intro equisolid_angle_ge) simp_all
  then have Apos: "1 / 10000 \<le> A" using rlo unfolding A_def by linarith
  have norm: "sqrt (A * (nx * ar / r) * (A * (nx * ar / r)) + A * (ny / r) * (A * (ny / r))) = A"
    using radial_norm [OF r_def rpos, of A] Apos by simp
  have m: "min (r / 2) 1 = r / 2" using rhi by simp
  have fwd: "Equisolid_viewportToAngles nx ny fv ar = (A * (nx * ar / r), A * (ny / r))"
    using rlo unfolding Equisolid_viewportToAngles_def Let_def r_def [symmetric] m A_def [symmetric]
    by simp
  have inv_r: "2 * sin (A / 2) = r" unfolding A_def using rpos rhi by simp
  have "Equisolid_anglesToViewport (A * (nx * ar / r)) (A * (ny / r)) fv ar = (nx, ny)"
    unfolding Equisolid_anglesToViewport_def Let_def norm inv_r
    using Apos rpos ar by simp
  then show ?thesis by (simp add: fwd)
qed

lemma rectilinear_roundtrip:
  assumes fv: "0 < fv" "fv < pi" and ar: "0 < ar"
  shows "(case Rectilinear_viewportToAngles nx ny fv ar of (theta, phi) \<Rightarrow>
           Rectilinear_anglesToViewport theta phi fv ar) = (nx, ny)"
proof -
  have "0 < tan (fv / 2)" using fv by (intro tan_gt_zero) simp_all
  then show ?thesis using ar
    by (simp add: Rectilinear_viewportToAngles_def Rectilinear_anglesToViewport_def js_atan2_def
        tan_arctan)
qed

lemma stereographic_roundtrip_doubles:
  assumes fv: "0 < fv" "fv < pi" and ar: "0 < ar"
    and r: "1 / 10000 \<le> sqrt (nx * ar * (nx * ar) + ny * ny)"
    and ang: "1 / 10000 \<le> 2 * arctan (sqrt (nx * ar * (nx * ar) + ny * ny) / (2 * tan (fv / 4)))"
  shows "(case Stereographic_viewportToAngles nx ny fv ar of (theta, phi) \<Rightarrow>
           Stereographic_anglesToViewport theta phi fv ar) = (2 * nx, 2 * ny)"
proof -
  define r where "r = sqrt (nx * ar * (nx * ar) + ny * ny)"
  define T where "T = tan (fv / 4)"
  define A where "A = 2 * arctan (r / (2 * T))"
  have rpos: "0 < r" and rlo: "1 / 10000 \<le> r" using r unfolding r_def by linarith+
  have Tpos: "0 < T" unfolding T_def using fv by (intro tan_gt_zero) simp_all
  have Apos: "1 / 10000 \<le> A" using ang unfolding A_def r_def T_def .
  have norm: "sqrt (A * (nx * ar / r) * (A * (nx * ar / r)) + A * (ny / r) * (A * (ny / r))) = A"
    using radial_norm [OF r_def rpos, of A] Apos by simp
  have q: "fv / 2 / 2 = fv / 4" by simp
  have fwd: "Stereographic_viewportToAngles nx ny fv ar = (A * (nx * ar / r), A * (ny / r))"
    using rlo
    unfolding Stereographic_viewportToAngles_def Let_def r_def [symmetric] q T_def [symmetric] A_def [symmetric]
    by simp
  have inv_r: "2 * tan (A / 2) * (2 * T) = 2 * r" unfolding A_def using Tpos by (simp add: tan_arctan)
  have "Stereographic_anglesToViewport (A * (nx * ar / r)) (A * (ny / r)) fv ar = (2 * nx, 2 * ny)"
    unfolding Stereographic_anglesToViewport_def Let_def norm q T_def [symmetric] inv_r
    using Apos rpos ar by simp
  then show ?thesis by (simp add: fwd)
qed

lemma drag_center: "getDragVelocity p 0 0 s = (s, s)"
  by (cases p) (simp_all add: getDragVelocity_def Rectilinear_getDragVelocity_def
      Stereographic_getDragVelocity_def Equidistant_getDragVelocity_def Equisolid_getDragVelocity_def)

lemma spec_radius_code: "spec_radius nx ny ar = sqrt (nx * ar * (nx * ar) + ny * ny)"
  by (simp add: spec_radius_def power2_eq_square)

text \<open>
  C3. For each of the four projection types \<open>viewportToAngles\<close> is the forward mapping of
  the specification's table (Rectilinear computed directly; the radial types with the
  table's angle, the decomposition along \<open>(nx * aspectRatio, ny) / r\<close> and \<open>(0, 0)\<close>
  for \<open>r < 1e-4\<close>), and \<open>anglesToViewport\<close> uses exactly the table's inverse radius
  (Rectilinear: the table's two tangent quotients).
\<close>

theorem projection_formulas_match_table:
  "viewportToAngles p nx ny fv ar = spec_viewportToAngles p nx ny fv ar \<and>
   anglesToViewport p theta phi fv ar =
     (if p = RECTILINEAR then (tan theta / (ar * tan (fv / 2)), tan phi / tan (fv / 2))
      else if sqrt (theta\<^sup>2 + phi\<^sup>2) < 1 / 10000 then (0, 0)
      else (spec_inverse_radius p (sqrt (theta\<^sup>2 + phi\<^sup>2)) fv ar * (theta / sqrt (theta\<^sup>2 + phi\<^sup>2)) / ar,
            spec_inverse_radius p (sqrt (theta\<^sup>2 + phi\<^sup>2)) fv ar * (phi / sqrt (theta\<^sup>2 + phi\<^sup>2))))"
proof (cases p)
  case RECTILINEAR
  then show ?thesis
    by (simp add: viewportToAngles_def anglesToViewport_def spec_viewportToAngles_def
        Rectilinear_viewportToAngles_def Rectilinear_anglesToViewport_def js_atan2_def)
next
  case STEREOGRAPHIC
  then show ?thesis
    by (simp add: viewportToAngles_def anglesToViewport_def spec_viewportToAngles_def
        Stereographic_viewportToAngles_def Stereographic_anglesToViewport_def spec_radius_code
        power2_eq_square Let_def)
next
  case EQUIDISTANT
  then show ?thesis
    by (simp add: viewportToAngles_def anglesToViewport_def spec_viewportToAngles_def
        Equidistant_viewportToAngles_def Equidistant_anglesToViewport_def spec_radius_code
        power2_eq_square Let_def)
next
  case EQUISOLID
  then show ?thesis
    by (simp add: viewportToAngles_def anglesToViewport_def spec_viewportToAngles_def
        Equisolid_viewportToAngles_def Equisolid_anglesToViewport_def spec_radius_code
        power2_eq_square Let_def)
qed

text \<open>
  C1 (as amended). For a field of view in \<open>(0, pi)\<close> and a positive aspect ratio: the
  Rectilinear round trip returns \<open>(nx, ny)\<close> for every input; the Equidistant round trip
  returns \<open>(nx, ny)\<close> when \<open>r \<ge> 1e-4\<close> and the forward angle \<open>r * (fov / 2) / sqrt (ar^2 + 1)\<close>
  is at least \<open>1e-4\<close>; the Equisolid round trip returns \<open>(nx, ny)\<close> when
  \<open>1e-4 \<le> r \<le> 2\<close>; and for the three radial types the forward mapping returns
  \<open>(0, 0)\<close> when \<open>r < 1e-4\<close> and the inverse mapping returns \<open>(0, 0)\<close> when the angle is
  below \<open>1e-4\<close>. Nothing is stated about the Stereographic round trip.
\<close>

theorem roundtrip_outside_degenerate_disc:
  assumes "0 < fv" and "fv < pi" and "0 < ar"
  shows "viewport_roundtrip RECTILINEAR nx ny fv ar = (nx, ny) \<and>
    (1 / 10000 \<le> spec_radius nx ny ar \<and>
       1 / 10000 \<le> spec_forward_angle EQUIDISTANT (spec_radius nx ny ar) fv ar
       \<longrightarrow> viewport_roundtrip EQUIDISTANT nx ny fv ar = (nx, ny)) \<and>
    (1 / 10000 \<le> spec_radius nx ny ar \<and> spec_radius nx ny ar \<le> 2
       \<longrightarrow> viewport_roundtrip EQUISOLID nx ny fv ar = (nx, ny)) \<and>
    (p \<noteq> RECTILINEAR \<and> spec_radius nx ny ar < 1 / 10000
       \<longrightarrow> viewportToAngles p nx ny fv ar = (0, 0)) \<and>
    (p \<noteq> RECTILINEAR \<and> sqrt (theta\<^sup>2 + phi\<^sup>2) < 1 / 10000
       \<longrightarrow> anglesToViewport p theta phi fv ar = (0, 0))"
proof (intro conjI impI)
  show "viewport_roundtrip RECTILINEAR nx ny fv ar = (nx, ny)"
    using rectilinear_roundtrip [OF assms] by (simp add: viewport_roundtrip_def viewportToAngles_def anglesToViewport_def)
next
  assume "1 / 10000 \<le> spec_radius nx ny ar \<and>
       1 / 10000 \<le> spec_forward_angle EQUIDISTANT (spec_radius nx ny ar) fv ar"
  then have "1 / 10000 \<le> sqrt (nx * ar * (nx * ar) + ny * ny)"
    and "1 / 10000 \<le> sqrt (nx * ar * (nx * ar) + ny * ny) * (fv / 2) / sqrt (ar * ar + 1)"
    by (simp_all add: spec_radius_code power2_eq_square)
  from equidistant_roundtrip [OF assms(1) assms(3) this]
  show "viewport_roundtrip EQUIDISTANT nx ny fv ar = (nx, ny)"
    by (simp add: viewport_roundtrip_def viewportToAngles_def anglesToViewport_def)
next
  assume "1 / 10000 \<le> spec_radius nx ny ar \<and> spec_radius nx ny ar \<le> 2"
  then have "1 / 10000 \<le> sqrt (nx * ar * (nx * ar) + ny * ny)"
    and "sqrt (nx * ar * (nx * ar) + ny * ny) \<le> 2"
    by (simp_all add: spec_radius_code)
  from equisolid_roundtrip [OF assms(3) this]
  show "viewport_roundtrip EQUISOLID nx ny fv ar = (nx, ny)"
    by (simp add: viewport_roundtrip_def viewportToAngles_def anglesToViewport_def)
next
  assume "p \<noteq> RECTILINEAR \<and> spec_radius nx ny ar < 1 / 10000"
  then show "viewportToAngles p nx ny fv ar = (0, 0)"
    by (cases p) (simp_all add: viewportToAngles_def spec_radius_code Let_def
        Stereographic_viewportToAngles_def Equidistant_viewportToAngles_def
        Equisolid_viewportToAngles_def)
next
  assume "p \<noteq> RECTILINEAR \<and> sqrt (theta\<^sup>2 + phi\<^sup>2) < 1 / 10000"
  then show "anglesToViewport p theta phi fv ar = (0, 0)"
    by (cases p) (simp_all add: anglesToViewport_def power2_eq_square Let_def
        Stereographic_anglesToViewport_def Equidistant_anglesToViewport_def
        Equisolid_anglesToViewport_def)
qed

lemma sqrt2_bounds: "1 < sqrt 2" "sqrt 2 < 2"
proof -
  show "1 < sqrt 2" by simp
  have "sqrt 2 < sqrt 4" by (rule real_sqrt_less_mono) simp
  then show "sqrt 2 < 2" by (simp only: real_sqrt_four)
qed

lemma sqrt_5000: "sqrt (1 / 25000000) = 1 / 5000"
proof -
  have "(1 / 25000000 :: real) = (1 / 5000)\<^sup>2" by (simp add: power2_eq_square)
  then have "sqrt (1 / 25000000) = \<bar>1 / 5000 :: real\<bar>" by (simp only: real_sqrt_abs)
  then show ?thesis by simp
qed

text \<open>
  C1 as stated fails: with the Equidistant projection, field of view 1 and aspect ratio 1,
  the coordinate \<open>(0, 1/5000)\<close> has radius \<open>2e-4\<close>, its forward angle is below \<open>1e-4\<close>,
  and the inverse mapping sends it to the centre.
\<close>

theorem roundtrip_equidistant_counterexample:
  "(0::real) < 1 \<and> 1 < pi \<and> 1 / 10000 \<le> spec_radius 0 (1 / 5000) 1 \<and>
   viewport_roundtrip EQUIDISTANT 0 (1 / 5000) 1 1 \<noteq> (0, 1 / 5000)"
proof -
  have pi1: "1 < pi" using pi_ge_two by linarith
  have r: "spec_radius 0 (1 / 5000) 1 = 1 / 5000"
    by (simp add: spec_radius_code sqrt_5000)
  have fwd: "viewportToAngles EQUIDISTANT 0 (1 / 5000) 1 1 = (0, 1 / (10000 * sqrt 2))"
    by (simp add: viewportToAngles_def Equidistant_viewportToAngles_def Let_def sqrt_5000)
  define a :: real where "a = 1 / (10000 * sqrt 2)"
  have apos: "0 < a" unfolding a_def by simp
  have small: "a < 1 / 10000"
    unfolding a_def using sqrt2_bounds(1) by (simp add: field_simps)
  have norm: "sqrt (0 * 0 + a * a) = a" using apos by simp
  have "Equidistant_anglesToViewport 0 a 1 1 = (0, 0)"
    unfolding Equidistant_anglesToViewport_def Let_def norm using small by simp
  then have "anglesToViewport EQUIDISTANT 0 (1 / (10000 * sqrt 2)) 1 1 = (0, 0)"
    by (simp add: anglesToViewport_def a_def)
  then have "viewport_roundtrip EQUIDISTANT 0 (1 / 5000) 1 1 = (0, 0)"
    by (simp add: viewport_roundtrip_def fwd)
  then show ?thesis using pi1 r by simp
qed

theorem roundtrip_outside_degenerate_disc_witness:
  "viewport_roundtrip RECTILINEAR 0 1 1 1 = (0, 1) \<and>
   viewport_roundtrip EQUIDISTANT 0 1 1 1 = (0, 1) \<and>
   viewport_roundtrip EQUISOLID 0 1 1 1 = (0, 1) \<and>
   viewportToAngles EQUIDISTANT 0 0 1 1 = (0, 0) \<and>
   anglesToViewport EQUIDISTANT 0 0 1 1 = (0, 0)"
proof -
  have pi1: "(1::real) < pi" using pi_ge_two by linarith
  have r1: "spec_radius 0 1 1 = 1" by (simp add: spec_radius_def)
  have r0: "spec_radius 0 0 1 = 0" by (simp add: spec_radius_def)
  have "1 / (2 * sqrt 2) \<ge> 1 / (2 * 2)"
    using sqrt2_bounds by (intro divide_left_mono) simp_all
  then have ang: "1 / 10000 \<le> spec_forward_angle EQUIDISTANT 1 1 1" by simp
  have z: "sqrt (0\<^sup>2 + 0\<^sup>2) < (1 / 10000 :: real)" by simp
  from roundtrip_outside_degenerate_disc [of 1 1 0 1 EQUIDISTANT 0 0]
       roundtrip_outside_degenerate_disc [of 1 1 0 0 EQUIDISTANT 0 0]
  show ?thesis using pi1 r1 r0 ang z by simp
qed

text \<open>
  The Stereographic inverse radius \<open>2 * tan (angle / 2) * (2 * tan (fov / 4))\<close> is twice
  the radius the forward formula started from, so the Stereographic round trip returns
  \<open>(2 * nx, 2 * ny)\<close>; for instance \<open>(0, 1)\<close> comes back as \<open>(0, 2)\<close>.
\<close>

lemma stereographic_roundtrip_doubles_example:
  "viewport_roundtrip STEREOGRAPHIC 0 1 (4 * arctan (1 / 2)) 1 = (0, 2)"
proof -
  define fv where "fv = 4 * arctan (1 / 2)"
  have lt: "arctan (1 / 2) < pi / 4"
    using arctan_less_iff [of "1 / 2" 1] by (simp add: arctan_one)
  have gt: "0 < arctan (1 / 2)" by simp
  have fv: "0 < fv" "fv < pi" using lt gt unfolding fv_def by simp_all
  have T: "tan (fv / 4) = 1 / 2" unfolding fv_def by (simp add: tan_arctan)
  have r: "sqrt (0 * 1 * (0 * 1) + 1 * 1) = (1::real)" by simp
  have "2 * arctan (1 / (2 * tan (fv / 4))) = pi / 2" unfolding T by (simp add: arctan_one)
  then have ang: "1 / 10000 \<le> 2 * arctan (sqrt (0 * 1 * (0 * 1) + 1 * 1) / (2 * tan (fv / 4)))"
    unfolding r using pi_ge_two by simp
  from stereographic_roundtrip_doubles [OF fv _ _ ang]
  show ?thesis
    unfolding fv_def [symmetric]
    by (simp add: viewport_roundtrip_def viewportToAngles_def anglesToViewport_def)
qed

subsection \<open>Angle normalization\<close>

lemma wrap_above_le: "wrap_above a \<le> pi"
  by (induction a rule: wrap_above.induct) (subst wrap_above.simps, simp)

lemma wrap_above_id: "a \<le> pi \<Longrightarrow> wrap_above a = a"
  by (subst wrap_above.simps) simp

lemma wrap_below_ge: "- pi \<le> wrap_below a"
  by (induction a rule: wrap_below.induct) (subst wrap_below.simps, simp)

lemma wrap_below_id: "- pi \<le> a \<Longrightarrow> wrap_below a = a"
  by (subst wrap_below.simps) simp

lemma wrap_below_le: "a \<le> pi \<Longrightarrow> wrap_below a \<le> pi"
proof (induction a rule: wrap_below.induct)
  case (1 angle)
  show ?case
  proof (cases "angle < - pi")
    case True
    then have "angle + 2 * pi \<le> pi" by simp
    with 1 True show ?thesis by (subst wrap_below.simps) simp
  next
    case False
    with 1 show ?thesis by (subst wrap_below.simps) simp
  qed
qed

lemma normalizeAngle_range: "- pi \<le> normalizeAngle a \<and> normalizeAngle a \<le> pi"
  unfolding normalizeAngle_def using wrap_below_ge wrap_below_le [OF wrap_above_le] by blast

lemma normalizeAngle_id: "- pi \<le> a \<Longrightarrow> a \<le> pi \<Longrightarrow> normalizeAngle a = a"
  by (simp add: normalizeAngle_def wrap_above_id wrap_below_id)

lemma yaw_normalized_range:
  "- 180 \<le> radToDeg (normalizeAngle (degToRad v)) \<and> radToDeg (normalizeAngle (degToRad v)) \<le> 180"
proof -
  define n where "n = normalizeAngle (degToRad v)"
  have n: "- pi \<le> n" "n \<le> pi" using normalizeAngle_range [of "degToRad v"] by (simp_all add: n_def)
  have "n * (180 / pi) \<le> pi * (180 / pi)" using n(2) by (intro mult_right_mono) simp_all
  moreover have "(- pi) * (180 / pi) \<le> n * (180 / pi)" using n(1) by (intro mult_right_mono) simp_all
  ultimately show ?thesis unfolding n_def [symmetric] radToDeg_def by simp
qed

lemma yaw_normalized_id:
  assumes "- 180 \<le> v" "v \<le> 180"
  shows "radToDeg (normalizeAngle (degToRad v)) = v"
proof -
  have "v * (pi / 180) \<le> 180 * (pi / 180)" using assms by (intro mult_right_mono) simp_all
  moreover have "(- 180) * (pi / 180) \<le> v * (pi / 180)" using assms by (intro mult_right_mono) simp_all
  ultimately have "normalizeAngle (degToRad v) = degToRad v"
    by (intro normalizeAngle_id) (simp_all add: degToRad_def)
  then show ?thesis by (simp add: radToDeg_def degToRad_def)
qed

subsection \<open>Drag velocity\<close>

lemma markDirty_state: "state (markDirty r) = state r"
  by (simp add: markDirty_def scheduleRender_def)

text \<open>
  C10. At the viewport centre every strategy returns the base sensitivity on both axes.
  The drag-move handler evaluates the velocity there, so whatever the projection type
  \<open>p\<close>, a drag-move by \<open>(dx, dy)\<close> while dragging subtracts \<open>dx * sensitivity\<close> from yaw and
  \<open>dy * sensitivity\<close> from pitch, then normalizes yaw and clamps pitch; when the new
  values are already in range they are exactly \<open>yaw - dx * sensitivity\<close> and
  \<open>pitch - dy * sensitivity\<close>.
\<close>

theorem drag_velocity_at_center:
  "getDragVelocity p 0 0 s = (s, s) \<and>
   (isDragging (state r) \<and> data_dx d = Some dx \<and> data_dy d = Some dy \<longrightarrow>
      state (handleMouseMove d (r\<lparr>projectionType := p\<rparr>)) =
        (state r)\<lparr>yaw := radToDeg (normalizeAngle (degToRad (yaw (state r) - dx * sensitivity (config r)))),
                  pitch := clamp (pitch (state r) - dy * sensitivity (config r)) MIN_PITCH MAX_PITCH\<rparr>) \<and>
   (isDragging (state r) \<and> data_dx d = Some dx \<and> data_dy d = Some dy \<and>
    - 180 \<le> yaw (state r) - dx * sensitivity (config r) \<and>
    yaw (state r) - dx * sensitivity (config r) \<le> 180 \<and>
    - 90 \<le> pitch (state r) - dy * sensitivity (config r) \<and>
    pitch (state r) - dy * sensitivity (config r) \<le> 90 \<longrightarrow>
      yaw (state (handleMouseMove d (r\<lparr>projectionType := p\<rparr>))) =
        yaw (state r) - dx * sensitivity (config r) \<and>
      pitch (state (handleMouseMove d (r\<lparr>projectionType := p\<rparr>))) =
        pitch (state r) - dy * sensitivity (config r))"
proof (intro conjI impI)
  show "getDragVelocity p 0 0 s = (s, s)" by (rule drag_center)
next
  assume "isDragging (state r) \<and> data_dx d = Some dx \<and> data_dy d = Some dy"
  then show "state (handleMouseMove d (r\<lparr>projectionType := p\<rparr>)) =
        (state r)\<lparr>yaw := radToDeg (normalizeAngle (degToRad (yaw (state r) - dx * sensitivity (config r)))),
                  pitch := clamp (pitch (state r) - dy * sensitivity (config r)) MIN_PITCH MAX_PITCH\<rparr>"
    by (simp add: handleMouseMove_def drag_center markDirty_state Let_def)
next
  assume a: "isDragging (state r) \<and> data_dx d = Some dx \<and> data_dy d = Some dy \<and>
    - 180 \<le> yaw (state r) - dx * sensitivity (config r) \<and>
    yaw (state r) - dx * sensitivity (config r) \<le> 180 \<and>
    - 90 \<le> pitch (state r) - dy * sensitivity (config r) \<and>
    pitch (state r) - dy * sensitivity (config r) \<le> 90"
  then have y: "radToDeg (normalizeAngle (degToRad (yaw (state r) - dx * sensitivity (config r)))) =
      yaw (state r) - dx * sensitivity (config r)"
    by (intro yaw_normalized_id) simp_all
  from a show "yaw (state (handleMouseMove d (r\<lparr>projectionType := p\<rparr>))) =
        yaw (state r) - dx * sensitivity (config r)"
    by (simp add: handleMouseMove_def drag_center markDirty_state Let_def y)
  from a show "pitch (state (handleMouseMove d (r\<lparr>projectionType := p\<rparr>))) =
        pitch (state r) - dy * sensitivity (config r)"
    by (simp add: handleMouseMove_def drag_center markDirty_state Let_def clamp_def
        MIN_PITCH_def MAX_PITCH_def)
qed

lemma dragging_renderer_state:
  "state dragging_renderer = \<lparr>yaw = 0, pitch = 0, zoom = 1, isDragging = True\<rparr>"
  "config dragging_renderer = default_config"
  by (simp_all add: dragging_renderer_def handleInput_def handleMouseDown_def no_data_def
      construct_def default_config_def clamp_def MIN_PITCH_def MAX_PITCH_def)

theorem drag_velocity_at_center_witness:
  "getDragVelocity STEREOGRAPHIC 0 0 0.5 = (0.5, 0.5) \<and>
   state (handleMouseMove (no_data\<lparr>data_dx := Some 4, data_dy := Some (- 2)\<rparr>)
            (dragging_renderer\<lparr>projectionType := STEREOGRAPHIC\<rparr>)) =
     \<lparr>yaw = - 2, pitch = 1, zoom = 1, isDragging = True\<rparr>"
proof -
  let ?d = "no_data\<lparr>data_dx := Some 4, data_dy := Some (- 2)\<rparr>"
  have d: "data_dx ?d = Some 4" "data_dy ?d = Some (- 2)" by (simp_all add: no_data_def)
  have n: "radToDeg (normalizeAngle (degToRad (- 2))) = - 2"
    by (intro yaw_normalized_id) simp_all
  from drag_velocity_at_center [of STEREOGRAPHIC "0.5" dragging_renderer ?d 4 "- 2"]
  show ?thesis
    using d n by (simp add: dragging_renderer_state default_config_def clamp_def MIN_PITCH_def MAX_PITCH_def)
qed

subsection \<open>Yaw after input\<close>

lemma handleMouseMove_yaw:
  "isDragging (state r) \<Longrightarrow> data_dx d = Some dx \<Longrightarrow> data_dy d = Some dy \<Longrightarrow>
   yaw (state (handleMouseMove d r)) =
     radToDeg (normalizeAngle (degToRad (yaw (state r) - dx * fst (getDragVelocity (projectionType r) 0 0 (sensitivity (config r))))))"
  by (simp add: handleMouseMove_def markDirty_state Let_def)

lemma handleKeyDown_yaw:
  assumes "enableKeyboard (config r)" and "data_key d = Some k" and "k \<in> set arrow_keys"
  shows "- 180 \<le> yaw (state (handleKeyDown d r)) \<and> yaw (state (handleKeyDown d r)) \<le> 180"
proof -
  from assms(3) consider "k = ''ArrowLeft''" | "k = ''ArrowRight''" | "k = ''ArrowUp''" | "k = ''ArrowDown''"
    by (auto simp: arrow_keys_def)
  then show ?thesis
  proof cases
    case 1
    with assms(1,2) show ?thesis
      using yaw_normalized_range by (simp add: handleKeyDown_def markDirty_state Let_def)
  next
    case 2
    with assms(1,2) show ?thesis
      using yaw_normalized_range by (simp add: handleKeyDown_def markDirty_state Let_def)
  next
    case 3
    with assms(1,2) show ?thesis
      using yaw_normalized_range by (simp add: handleKeyDown_def markDirty_state Let_def)
  next
    case 4
    with assms(1,2) show ?thesis
      using yaw_normalized_range by (simp add: handleKeyDown_def markDirty_state Let_def)
  qed
qed

text \<open>
  C2 (as amended). After a drag-move that is applied (the renderer is dragging and the
  event carries \<open>dx\<close> and \<open>dy\<close>) and after a key-down of an arrow key with the keyboard
  enabled, the yaw reported by \<open>getState\<close> lies in the closed interval \<open>[-180, 180]\<close>,
  whatever it was before. Nothing is stated about \<open>setState\<close>.
\<close>

theorem yaw_closed_range_after_drag_and_key:
  "(isDragging (state r) \<and> data_dx d = Some dx \<and> data_dy d = Some dy \<longrightarrow>
      - 180 \<le> yaw (getState (handleInput MouseMove d r)) \<and>
      yaw (getState (handleInput MouseMove d r)) \<le> 180) \<and>
   (enableKeyboard (config r) \<and> data_key d = Some k \<and> k \<in> set arrow_keys \<longrightarrow>
      - 180 \<le> yaw (getState (handleInput KeyDown d r)) \<and>
      yaw (getState (handleInput KeyDown d r)) \<le> 180)"
proof (intro conjI impI)
  assume a: "isDragging (state r) \<and> data_dx d = Some dx \<and> data_dy d = Some dy"
  then have "yaw (getState (handleInput MouseMove d r)) =
      radToDeg (normalizeAngle (degToRad (yaw (state r) - dx * fst (getDragVelocity (projectionType r) 0 0 (sensitivity (config r))))))"
    by (simp add: getState_def handleInput_def handleMouseMove_yaw)
  then show "- 180 \<le> yaw (getState (handleInput MouseMove d r))"
    and "yaw (getState (handleInput MouseMove d r)) \<le> 180"
    using yaw_normalized_range by simp_all
next
  assume a: "enableKeyboard (config r) \<and> data_key d = Some k \<and> k \<in> set arrow_keys"
  then have "- 180 \<le> yaw (state (handleKeyDown d r)) \<and> yaw (state (handleKeyDown d r)) \<le> 180"
    using handleKeyDown_yaw by blast
  then show "- 180 \<le> yaw (getState (handleInput KeyDown d r))"
    and "yaw (getState (handleInput KeyDown d r)) \<le> 180"
    by (simp_all add: getState_def handleInput_def)
qed

lemma key_right_from_175:
  "yaw (getState (handleInput KeyDown (no_data\<lparr>data_key := Some ''ArrowRight''\<rparr>)
          (construct 800 600 175 0 1 EQUIDISTANT default_config))) = 180"
proof -
  have n: "radToDeg (normalizeAngle (degToRad 180)) = 180"
    by (intro yaw_normalized_id) simp_all
  show ?thesis
    by (simp add: getState_def handleInput_def handleKeyDown_def markDirty_state Let_def
        no_data_def construct_def default_config_def n)
qed

text \<open>
  C2 as stated fails: from yaw 175, one ArrowRight gives yaw 180, which
  \<open>normalizeAngle\<close> keeps (it only wraps angles above \<open>pi\<close>).
\<close>

theorem yaw_half_open_counterexample:
  "\<not> yaw (getState (handleInput KeyDown (no_data\<lparr>data_key := Some ''ArrowRight''\<rparr>)
          (construct 800 600 175 0 1 EQUIDISTANT default_config))) < 180"
  by (simp add: key_right_from_175)

theorem yaw_closed_range_after_drag_and_key_witness:
  "- 180 \<le> yaw (getState (handleInput MouseMove (no_data\<lparr>data_dx := Some 4, data_dy := Some (- 2)\<rparr>) dragging_renderer)) \<and>
   yaw (getState (handleInput MouseMove (no_data\<lparr>data_dx := Some 4, data_dy := Some (- 2)\<rparr>) dragging_renderer)) \<le> 180 \<and>
   - 180 \<le> yaw (getState (handleInput KeyDown (no_data\<lparr>data_key := Some ''ArrowRight''\<rparr>)
          (construct 800 600 175 0 1 EQUIDISTANT default_config))) \<and>
   yaw (getState (handleInput KeyDown (no_data\<lparr>data_key := Some ''ArrowRight''\<rparr>)
          (construct 800 600 175 0 1 EQUIDISTANT default_config))) \<le> 180"
proof -
  let ?d = "no_data\<lparr>data_dx := Some 4, data_dy := Some (- 2)\<rparr>"
  let ?k = "no_data\<lparr>data_key := Some ''ArrowRight''\<rparr>"
  let ?r = "construct 800 600 175 0 1 EQUIDISTANT default_config"
  have d: "isDragging (state dragging_renderer) \<and> data_dx ?d = Some 4 \<and> data_dy ?d = Some (- 2)"
    by (simp add: no_data_def dragging_renderer_state)
  have k: "enableKeyboard (config ?r) \<and> data_key ?k = Some ''ArrowRight'' \<and> ''ArrowRight'' \<in> set arrow_keys"
    by (simp add: no_data_def construct_def default_config_def arrow_keys_def)
  from yaw_closed_range_after_drag_and_key [of dragging_renderer ?d 4 "- 2"]
       yaw_closed_range_after_drag_and_key [of ?r ?k _ _ "''ArrowRight''"]
  show ?thesis using d k by blast
qed

text \<open>\<open>setState\<close> stores the yaw it is given without normalizing it.\<close>

lemma setState_keeps_raw_yaw:
  "yaw (getState (setState \<lparr>new_yaw = Some 500, new_pitch = None, new_zoom = None\<rparr> r)) = 500"
  by (simp add: getState_def setState_def markDirty_state)

subsection \<open>Visibility gates\<close>

text \<open>
  C4. \<open>projectToViewport\<close> returns \<open>None\<close> exactly when the angular gate
  (\<open>|nx| > 1.2\<close> or \<open>|ny| > 1.2\<close>, on the coordinates before zoom) or the pixel gate (the
  pixel more than 100 outside the viewport on some side) triggers; a result \<open>(x, y)\<close> is
  the zoomed pixel and satisfies \<open>-100 \<le> x \<le> width + 100\<close> and \<open>-100 \<le> y \<le> height + 100\<close>.
\<close>

theorem projectToViewport_two_gates:
  "(projectToViewport srcX srcY iw ih w h yw pt zm fv p = None \<longleftrightarrow>
      (\<bar>fst (viewport_normalized srcX srcY iw ih w h yw pt fv p)\<bar> > 1.2 \<or>
       \<bar>snd (viewport_normalized srcX srcY iw ih w h yw pt fv p)\<bar> > 1.2) \<or>
      (fst (viewport_pixel (viewport_normalized srcX srcY iw ih w h yw pt fv p) w h zm) < - 100 \<or>
       fst (viewport_pixel (viewport_normalized srcX srcY iw ih w h yw pt fv p) w h zm) > w + 100 \<or>
       snd (viewport_pixel (viewport_normalized srcX srcY iw ih w h yw pt fv p) w h zm) < - 100 \<or>
       snd (viewport_pixel (viewport_normalized srcX srcY iw ih w h yw pt fv p) w h zm) > h + 100)) \<and>
   (projectToViewport srcX srcY iw ih w h yw pt zm fv p = Some (x, y) \<longrightarrow>
      (x, y) = viewport_pixel (viewport_normalized srcX srcY iw ih w h yw pt fv p) w h zm \<and>
      - 100 \<le> x \<and> x \<le> w + 100 \<and> - 100 \<le> y \<and> y \<le> h + 100)"
proof -
  obtain a b where px: "viewport_pixel (viewport_normalized srcX srcY iw ih w h yw pt fv p) w h zm = (a, b)"
    by (cases "viewport_pixel (viewport_normalized srcX srcY iw ih w h yw pt fv p) w h zm")
  show ?thesis
    unfolding projectToViewport_def Let_def px
    by (auto split: if_splits)
qed

lemma viewport_normalized_center:
  "viewport_normalized 512 256 1024 512 800 600 0 0 (pi / 2) RECTILINEAR = (0, 0)"
proof -
  have n: "normalizeAngle 0 = 0" by (intro normalizeAngle_id) simp_all
  show ?thesis
    by (simp add: viewport_normalized_def anglesToViewport_def Rectilinear_anglesToViewport_def n)
qed

lemma projectToViewport_center:
  "projectToViewport 512 256 1024 512 800 600 0 0 1 (pi / 2) RECTILINEAR = Some (400, 300)"
  by (simp add: projectToViewport_def viewport_normalized_center viewport_pixel_def)

theorem projectToViewport_two_gates_witness:
  "projectToViewport 512 256 1024 512 800 600 0 0 1 (pi / 2) RECTILINEAR = Some (400, 300) \<and>
   (- 100 :: real) \<le> 400 \<and> (400 :: real) \<le> 800 + 100 \<and> (- 100 :: real) \<le> 300 \<and> (300 :: real) \<le> 600 + 100"
  using projectToViewport_two_gates [of 512 256 1024 512 800 600 0 0 1 "pi / 2" RECTILINEAR 400 300]
    projectToViewport_center by simp

subsection \<open>Image validation and failed mutations\<close>

text \<open>
  C6 (as amended). For a decoded image \<open>loadImage\<close> rejects with the too-small error
  exactly when width \<open>< 512\<close> or height \<open>< 256\<close>; with the too-large error exactly when
  the image is not too small and width \<open>> 8192\<close> or height \<open>> 4096\<close>; and succeeds exactly
  when \<open>512 \<le> width \<le> 8192\<close> and \<open>256 \<le> height \<le> 4096\<close>. 511 by 300 is too small,
  512 by 256 and 8192 by 4096 succeed, 8193 by 4096 is too large.
\<close>

theorem loadImage_validation:
  "(fst (loadImage src (Some img) r) = Inl (ImageTooSmall (img_width img) (img_height img)) \<longleftrightarrow>
      img_width img < 512 \<or> img_height img < 256) \<and>
   (fst (loadImage src (Some img) r) = Inl (ImageTooLarge (img_width img) (img_height img)) \<longleftrightarrow>
      512 \<le> img_width img \<and> 256 \<le> img_height img \<and>
      (img_width img > 8192 \<or> img_height img > 4096)) \<and>
   (fst (loadImage src (Some img) r) = Inr () \<longleftrightarrow>
      512 \<le> img_width img \<and> img_width img \<le> 8192 \<and>
      256 \<le> img_height img \<and> img_height img \<le> 4096) \<and>
   fst (loadImage src (Some (white_image 511 300)) r) = Inl (ImageTooSmall 511 300) \<and>
   fst (loadImage src (Some (white_image 512 256)) r) = Inr () \<and>
   fst (loadImage src (Some (white_image 8192 4096)) r) = Inr () \<and>
   fst (loadImage src (Some (white_image 8193 4096)) r) = Inl (ImageTooLarge 8193 4096)"
  by (auto simp: loadImage_def white_image_def MIN_IMAGE_WIDTH_def MIN_IMAGE_HEIGHT_def
      MAX_IMAGE_WIDTH_def MAX_IMAGE_HEIGHT_def)

text \<open>
  C6 as stated fails: a 100 by 5000 image has height above 4096, and is rejected as too
  small, not as too large, because the too-small check comes first.
\<close>

theorem loadImage_too_large_counterexample:
  "img_height (white_image 100 5000) > 4096 \<and>
   fst (loadImage ''pano.jpg'' (Some (white_image 100 5000))
          (construct 800 600 0 0 1 EQUIDISTANT default_config)) = Inl (ImageTooSmall 100 5000) \<and>
   fst (loadImage ''pano.jpg'' (Some (white_image 100 5000))
          (construct 800 600 0 0 1 EQUIDISTANT default_config)) \<noteq> Inl (ImageTooLarge 100 5000)"
  by (simp add: loadImage_def white_image_def MIN_IMAGE_WIDTH_def MIN_IMAGE_HEIGHT_def)

text \<open>
  C9. A \<open>resize\<close> with width or height below 100 fails and returns the renderer as it
  was; a \<open>loadImage\<close> whose image fails to load or fails the dimension checks fails and
  returns the renderer as it was (canvas size, active image, cached source data, camera
  state and every other field); and whenever either call fails the renderer is unchanged.
\<close>

theorem failed_mutations_leave_renderer_unchanged:
  "(width < 100 \<or> height < 100 \<longrightarrow> resize width height r = (Inl (CanvasTooSmall width height), r)) \<and>
   (fst (resize width height r) \<noteq> Inr () \<longrightarrow> snd (resize width height r) = r) \<and>
   loadImage src None r = (Inl (ImageLoadFailed src), r) \<and>
   (img_width img < 512 \<or> img_height img < 256 \<or> img_width img > 8192 \<or> img_height img > 4096 \<longrightarrow>
      fst (loadImage src (Some img) r) \<noteq> Inr () \<and> snd (loadImage src (Some img) r) = r) \<and>
   (fst (loadImage src loaded r) \<noteq> Inr () \<longrightarrow> snd (loadImage src loaded r) = r)"
  by (auto simp: resize_def loadImage_def MIN_CANVAS_SIZE_def MIN_IMAGE_WIDTH_def
      MIN_IMAGE_HEIGHT_def MAX_IMAGE_WIDTH_def MAX_IMAGE_HEIGHT_def split: option.splits)

theorem failed_mutations_leave_renderer_unchanged_witness:
  "resize 99 500 dragging_renderer = (Inl (CanvasTooSmall 99 500), dragging_renderer) \<and>
   loadImage ''pano.jpg'' None dragging_renderer = (Inl (ImageLoadFailed ''pano.jpg''), dragging_renderer) \<and>
   snd (loadImage ''pano.jpg'' (Some (white_image 511 300)) dragging_renderer) = dragging_renderer"
  using failed_mutations_leave_renderer_unchanged
    [of 99 500 dragging_renderer "''pano.jpg''" "white_image 511 300" "Some (white_image 511 300)"]
  by (simp add: white_image_def)

subsection \<open>Label overlay\<close>

lemma visible_points_Collect: "visible_points pcs = {pt. Some pt \<in> set pcs}"
proof (rule set_eqI)
  fix pt
  have "pt \<in> set_option c \<longleftrightarrow> c = Some pt" for c :: "(real \<times> real) option"
    by (cases c) auto
  then show "pt \<in> visible_points pcs \<longleftrightarrow> pt \<in> {pt. Some pt \<in> set pcs}"
    by (simp add: visible_points_def)
qed

lemma Math_min_Min: "xs \<noteq> [] \<Longrightarrow> Math_min xs = Min (set xs)"
proof (induction xs rule: Math_min.induct)
  case (2 v va vb)
  then have "Math_min (v # va # vb) = min v (Min (set (va # vb)))" by simp
  also have "\<dots> = Min (insert v (set (va # vb)))" by (rule Min_insert [symmetric]) simp_all
  finally show ?case by simp
qed simp_all

lemma Math_max_Max: "xs \<noteq> [] \<Longrightarrow> Math_max xs = Max (set xs)"
proof (induction xs rule: Math_max.induct)
  case (2 v va vb)
  then have "Math_max (v # va # vb) = max v (Max (set (va # vb)))" by simp
  also have "\<dots> = Max (insert v (set (va # vb)))" by (rule Max_insert [symmetric]) simp_all
  finally show ?case by simp
qed simp_all

lemma visible_fst:
  "set (map (\<lambda>c. fst (the c)) (filter (\<lambda>c. c \<noteq> None) pcs)) = fst ` visible_points pcs"
  by (force simp: visible_points_Collect image_iff)

lemma visible_snd:
  "set (map (\<lambda>c. snd (the c)) (filter (\<lambda>c. c \<noteq> None) pcs)) = snd ` visible_points pcs"
  by (force simp: visible_points_Collect image_iff)

lemma visible_empty:
  "filter (\<lambda>c. c \<noteq> None) pcs = [] \<longleftrightarrow> visible_points pcs = {}"
  by (auto simp: visible_points_Collect filter_empty_conv)

lemma visible_none: "visible_points pcs = {} \<longleftrightarrow> (\<forall>c \<in> set pcs. c = None)"
proof
  assume e: "visible_points pcs = {}"
  show "\<forall>c \<in> set pcs. c = None"
  proof
    fix c assume c: "c \<in> set pcs"
    show "c = None"
    proof (cases c)
      case (Some pt)
      with c have "pt \<in> visible_points pcs" by (simp add: visible_points_Collect)
      with e show ?thesis by simp
    qed simp
  qed
next
  assume "\<forall>c \<in> set pcs. c = None"
  then show "visible_points pcs = {}" by (auto simp: visible_points_Collect)
qed

lemma draw_label_bounding_box:
  "draw_label pcs title =
     (if visible_points pcs = {} then []
      else
        case bounding_box (visible_points pcs) of
          (bx, by, bw, bh) \<Rightarrow>
            [FillRect bx by bw bh, StrokeRect bx by bw bh] @
            (if title_truthy title \<and> bw > 50 \<and> bh > 20
             then [FillText (the title) (bx + bw / 2) (by + bh / 2)] else []))"
proof (cases "visible_points pcs = {}")
  case True
  then have e: "filter (\<lambda>c. c \<noteq> None) pcs = []" by (simp only: visible_empty)
  show ?thesis unfolding draw_label_def Let_def e using True by simp
next
  case False
  define vis where "vis = filter (\<lambda>c. c \<noteq> None) pcs"
  have ne: "vis \<noteq> []" using False unfolding vis_def by (simp only: visible_empty) simp
  then have nx: "map (\<lambda>c. fst (the c)) vis \<noteq> []" and ny: "map (\<lambda>c. snd (the c)) vis \<noteq> []"
    by simp_all
  have len: "length vis \<noteq> 0" using ne by simp
  have mm: "Math_min (map (\<lambda>c. fst (the c)) vis) = Min (fst ` visible_points pcs)"
    "Math_max (map (\<lambda>c. fst (the c)) vis) = Max (fst ` visible_points pcs)"
    "Math_min (map (\<lambda>c. snd (the c)) vis) = Min (snd ` visible_points pcs)"
    "Math_max (map (\<lambda>c. snd (the c)) vis) = Max (snd ` visible_points pcs)"
    unfolding Math_min_Min [OF nx] Math_min_Min [OF ny] Math_max_Max [OF nx] Math_max_Max [OF ny]
    unfolding vis_def visible_fst visible_snd by (rule refl)+
  show ?thesis
    unfolding draw_label_def Let_def vis_def [symmetric] mm
    using False len by (simp add: bounding_box_def)
qed

lemma projected_corners_list:
  "projected_corners vw vh iw ih yw pt zm fv p l =
     [projectToViewport (label_x l) (label_y l) iw ih vw vh yw pt zm fv p,
      projectToViewport (label_x l + label_w l) (label_y l) iw ih vw vh yw pt zm fv p,
      projectToViewport (label_x l) (label_y l + label_h l) iw ih vw vh yw pt zm fv p,
      projectToViewport (label_x l + label_w l) (label_y l + label_h l) iw ih vw vh yw pt zm fv p]"
  by (simp add: projected_corners_def label_corners_def)

text \<open>
  C7. The label pass projects exactly the four corners \<open>(x, y)\<close>, \<open>(x + w, y)\<close>,
  \<open>(x, y + h)\<close>, \<open>(x + w, y + h)\<close> of a label through \<open>projectToViewport\<close>; it draws
  nothing for the label exactly when all four are not visible; otherwise the rectangle
  it fills and strokes is the bounding box of the visible corners.
\<close>

theorem label_drawn_as_visible_bounding_box:
  "projected_corners vw vh iw ih yw pt zm fv p l =
     [projectToViewport (label_x l) (label_y l) iw ih vw vh yw pt zm fv p,
      projectToViewport (label_x l + label_w l) (label_y l) iw ih vw vh yw pt zm fv p,
      projectToViewport (label_x l) (label_y l + label_h l) iw ih vw vh yw pt zm fv p,
      projectToViewport (label_x l + label_w l) (label_y l + label_h l) iw ih vw vh yw pt zm fv p] \<and>
   (render_label vw vh iw ih yw pt zm fv p l = [] \<longleftrightarrow>
      (\<forall>c \<in> set (projected_corners vw vh iw ih yw pt zm fv p l). c = None)) \<and>
   (\<not> (\<forall>c \<in> set (projected_corners vw vh iw ih yw pt zm fv p l). c = None) \<longrightarrow>
      (case bounding_box (visible_points (projected_corners vw vh iw ih yw pt zm fv p l)) of
         (bx, by, bw, bh) \<Rightarrow>
           take 2 (render_label vw vh iw ih yw pt zm fv p l) =
             [FillRect bx by bw bh, StrokeRect bx by bw bh]))"
proof -
  let ?pcs = "projected_corners vw vh iw ih yw pt zm fv p l"
  have vis: "visible_points ?pcs = {} \<longleftrightarrow> (\<forall>c \<in> set ?pcs. c = None)"
    by (rule visible_none)
  obtain bx "by" bw bh where bb: "bounding_box (visible_points ?pcs) = (bx, by, bw, bh)"
    by (cases "bounding_box (visible_points ?pcs)") auto
  show ?thesis
    unfolding render_label_def draw_label_bounding_box vis [symmetric] bb
    by (simp add: projected_corners_list)
qed

lemma example_corners:
  assumes "0 < s"
  shows "projected_corners s s 1024 512 0 0 1 (pi / 2) RECTILINEAR example_label =
     [Some (s / 2, s / 2), Some (s, s / 2), Some (s / 2, s), Some (s, s)]"
proof -
  have n0: "normalizeAngle 0 = 0" by (intro normalizeAngle_id) simp_all
  have n1: "normalizeAngle (pi / 4) = pi / 4" by (intro normalizeAngle_id) simp_all
  have l0: "(512 / 1024 :: real) * 2 * pi - pi = 0" by simp
  have l1: "(640 / 1024 :: real) * 2 * pi - pi = pi / 4" by simp
  have a0: "(256 / 512 :: real) * pi - pi / 2 = 0" by simp
  have a1: "(384 / 512 :: real) * pi - pi / 2 = pi / 4" by simp
  have t: "tan (pi / 2 / 2) = 1" using tan_45 by simp
  have v00: "viewport_normalized 512 256 1024 512 s s 0 0 (pi / 2) RECTILINEAR = (0, 0)"
    and v10: "viewport_normalized 640 256 1024 512 s s 0 0 (pi / 2) RECTILINEAR = (1, 0)"
    and v01: "viewport_normalized 512 384 1024 512 s s 0 0 (pi / 2) RECTILINEAR = (0, 1)"
    and v11: "viewport_normalized 640 384 1024 512 s s 0 0 (pi / 2) RECTILINEAR = (1, 1)"
    using assms
    unfolding viewport_normalized_def Let_def l0 l1 a0 a1 anglesToViewport_def
      Rectilinear_anglesToViewport_def
    by (simp_all add: n0 n1 t tan_45)
  show ?thesis
    using assms
    by (simp add: projected_corners_list example_label_def projectToViewport_def
        v00 v10 v01 v11 viewport_pixel_def)
qed

lemma visible_points_simps:
  "visible_points [] = {}"
  "visible_points (Some pt # cs) = insert pt (visible_points cs)"
  "visible_points (None # cs) = visible_points cs"
  by (auto simp: visible_points_Collect)

lemma example_box:
  assumes "0 < s"
  shows "bounding_box (visible_points
           (projected_corners s s 1024 512 0 0 1 (pi / 2) RECTILINEAR example_label)) =
         (s / 2, s / 2, s / 2, s / 2)"
  using assms by (simp add: example_corners visible_points_simps bounding_box_def min_def max_def)

theorem label_drawn_as_visible_bounding_box_witness:
  "take 2 (render_label 200 200 1024 512 0 0 1 (pi / 2) RECTILINEAR example_label) =
     [FillRect 100 100 100 100, StrokeRect 100 100 100 100] \<and>
   render_label 200 200 1024 512 0 0 1 (pi / 2) RECTILINEAR example_label \<noteq> []"
proof -
  have c: "projected_corners 200 200 1024 512 0 0 1 (pi / 2) RECTILINEAR example_label =
     [Some (100, 100), Some (200, 100), Some (100, 200), Some (200, 200)]"
    using example_corners [of 200] by simp
  have b: "bounding_box (visible_points
           (projected_corners 200 200 1024 512 0 0 1 (pi / 2) RECTILINEAR example_label)) =
         (100, 100, 100, 100)"
    using example_box [of 200] by simp
  have v: "\<not> (\<forall>c \<in> set (projected_corners 200 200 1024 512 0 0 1 (pi / 2) RECTILINEAR example_label). c = None)"
    unfolding c by simp
  from label_drawn_as_visible_bounding_box [of 200 200 1024 512 0 0 1 "pi / 2" RECTILINEAR example_label]
  show ?thesis using v unfolding b by simp
qed

text \<open>
  C8 (as amended). The title text is drawn exactly when the label is drawn, its title is
  present and not empty, and the bounding box is strictly wider than 50 and strictly
  taller than 20; the text drawn is the title, centred in the box.
\<close>

theorem title_drawn_iff_box_exceeds_50_by_20:
  "((\<exists>t tx ty. FillText t tx ty \<in> set (render_label vw vh iw ih yw pt zm fv p l)) \<longleftrightarrow>
      \<not> (\<forall>c \<in> set (projected_corners vw vh iw ih yw pt zm fv p l). c = None) \<and>
      title_truthy (label_title l) \<and>
      (case bounding_box (visible_points (projected_corners vw vh iw ih yw pt zm fv p l)) of
         (bx, by, bw, bh) \<Rightarrow> bw > 50 \<and> bh > 20)) \<and>
   (\<forall>t tx ty. FillText t tx ty \<in> set (render_label vw vh iw ih yw pt zm fv p l) \<longrightarrow>
      (case bounding_box (visible_points (projected_corners vw vh iw ih yw pt zm fv p l)) of
         (bx, by, bw, bh) \<Rightarrow> label_title l = Some t \<and> tx = bx + bw / 2 \<and> ty = by + bh / 2))"
proof -
  let ?pcs = "projected_corners vw vh iw ih yw pt zm fv p l"
  obtain bx "by" bw bh where bb: "bounding_box (visible_points ?pcs) = (bx, by, bw, bh)"
    by (cases "bounding_box (visible_points ?pcs)") auto
  have tt: "title_truthy (label_title l) \<Longrightarrow> label_title l = Some (the (label_title l))"
    by (cases "label_title l") (simp_all add: title_truthy_def)
  show ?thesis
    unfolding render_label_def draw_label_bounding_box visible_none [symmetric] bb
    using tt by auto
qed

text \<open>
  C8 as stated fails: on a 100 by 100 viewport with a 90 degree Rectilinear view, the
  example label is drawn as a 50 by 50 box, which is at least 50 by 20, and its title is
  not drawn.
\<close>

theorem title_at_exactly_50_counterexample:
  "label_title example_label = Some ''A'' \<and>
   render_label 100 100 1024 512 0 0 1 (pi / 2) RECTILINEAR example_label =
     [FillRect 50 50 50 50, StrokeRect 50 50 50 50]"
proof -
  have b: "bounding_box (visible_points
           (projected_corners 100 100 1024 512 0 0 1 (pi / 2) RECTILINEAR example_label)) =
         (50, 50, 50, 50)"
    using example_box [of 100] by simp
  have v: "visible_points (projected_corners 100 100 1024 512 0 0 1 (pi / 2) RECTILINEAR example_label) \<noteq> {}"
    using example_corners [of 100] by (simp add: visible_points_simps)
  show ?thesis
    unfolding render_label_def draw_label_bounding_box b using v
    by (simp add: example_label_def)
qed

theorem title_drawn_iff_box_exceeds_50_by_20_witness:
  "(\<exists>t tx ty. FillText t tx ty \<in> set (render_label 200 200 1024 512 0 0 1 (pi / 2) RECTILINEAR example_label)) \<and>
   FillText ''A'' 150 150 \<in> set (render_label 200 200 1024 512 0 0 1 (pi / 2) RECTILINEAR example_label)"
proof -
  have c: "projected_corners 200 200 1024 512 0 0 1 (pi / 2) RECTILINEAR example_label =
     [Some (100, 100), Some (200, 100), Some (100, 200), Some (200, 200)]"
    using example_corners [of 200] by simp
  have b: "bounding_box (visible_points
           (projected_corners 200 200 1024 512 0 0 1 (pi / 2) RECTILINEAR example_label)) =
         (100, 100, 100, 100)"
    using example_box [of 200] by simp
  have v: "\<not> (\<forall>c \<in> set (projected_corners 200 200 1024 512 0 0 1 (pi / 2) RECTILINEAR example_label). c = None)"
    unfolding c by simp
  have t: "title_truthy (label_title example_label)" "label_title example_label = Some ''A''"
    by (simp_all add: example_label_def title_truthy_def)
  note th = title_drawn_iff_box_exceeds_50_by_20
    [of 200 200 1024 512 0 0 1 "pi / 2" RECTILINEAR example_label, unfolded b]
  have rhs: "\<not> (\<forall>c \<in> set (projected_corners 200 200 1024 512 0 0 1 (pi / 2) RECTILINEAR example_label). c = None) \<and>
      title_truthy (label_title example_label) \<and>
      (case (100, 100, 100, 100) of (bx :: real, by :: real, bw :: real, bh :: real) \<Rightarrow> bw > 50 \<and> bh > 20)"
    using v t(1) by simp
  with th obtain t tx ty
    where m: "FillText t tx ty \<in> set (render_label 200 200 1024 512 0 0 1 (pi / 2) RECTILINEAR example_label)"
    by blast
  with th have "case (100, 100, 100, 100) of (bx, by, bw, bh) \<Rightarrow>
      label_title example_label = Some t \<and> tx = bx + bw / 2 \<and> ty = by + bh / 2"
    by blast
  then have "t = ''A''" and "tx = 150" and "ty = 150" using t(2) by simp_all
  with m show ?thesis by blast
qed

subsection \<open>Rasterizer\<close>

lemma js_rem_wrap:
  assumes "0 < W"
  shows "js_rem (js_rem k W + W) W = k mod W"
proof (cases "0 \<le> k")
  case True
  then have a: "js_rem k W = k mod W" using assms by (cases "k = 0") (simp_all add: js_rem_def)
  have "0 < k mod W + W" using assms by (simp add: add_nonneg_pos)
  then show ?thesis unfolding a using assms by (simp add: js_rem_def)
next
  case False
  define m where "m = (- k) mod W"
  have m: "0 \<le> m" "m < W" using assms by (simp_all add: m_def)
  have a: "js_rem k W = - m" using False assms by (simp add: js_rem_def m_def)
  have pos: "0 < - m + W" using m by simp
  have "(- m + W) mod W = (- m) mod W" by simp
  also have "\<dots> = (- (- k)) mod W" unfolding m_def by (simp add: mod_minus_eq)
  finally have "(- m + W) mod W = k mod W" by simp
  then show ?thesis unfolding a using pos assms by (simp add: js_rem_def)
qed

lemma wrappedSrcX_mod: "0 < W \<Longrightarrow> wrappedSrcX W sx = \<lfloor>sx\<rfloor> mod W"
  by (simp add: wrappedSrcX_def js_rem_wrap)

lemma wrappedSrcY_cases:
  "0 < H \<Longrightarrow> wrappedSrcY H sy =
     (if \<lfloor>sy\<rfloor> < 0 then 0 else if H \<le> \<lfloor>sy\<rfloor> then H - 1 else \<lfloor>sy\<rfloor>)"
proof -
  have "max 0 (min (H - 1) f) = (if f < 0 then 0 else if H \<le> f then H - 1 else f)"
    if "0 < H" for f :: int
    using that by (simp add: max_def min_def)
  then show "0 < H \<Longrightarrow> ?thesis" unfolding wrappedSrcY_def Let_def by blast
qed

lemma write_pixel_length [simp]:
  "length (write_pixel source iw ih width y sampler x dest) = length dest"
  by (simp add: write_pixel_def Let_def)

lemma four_updates_nth:
  fixes d :: "'a list"
  assumes "i < length d"
  shows "d[n * 4 := a, n * 4 + 1 := b, n * 4 + 2 := c, n * 4 + 3 := e] ! i =
     (if i div 4 = n then [a, b, c, e] ! (i mod 4) else d ! i)"
proof (cases "i div 4 = n")
  case True
  have m: "i mod 4 < 4" by simp
  have "i = i div 4 * 4 + i mod 4" by simp
  then have i: "i = n * 4 + i mod 4" unfolding True .
  from m consider "i mod 4 = 0" | "i mod 4 = 1" | "i mod 4 = 2" | "i mod 4 = 3" by linarith
  then show ?thesis
  proof cases
    case 1
    with i have "i = n * 4" by simp
    with assms True 1 show ?thesis by simp
  next
    case 2
    with i have e: "i = n * 4 + 1" by simp
    have "d[n * 4 := a, n * 4 + 1 := b, n * 4 + 2 := c, n * 4 + 3 := e] ! (n * 4 + 1) = b"
      using assms unfolding e by simp
    with True 2 show ?thesis unfolding e by simp
  next
    case 3
    with i have e: "i = n * 4 + 2" by simp
    have "d[n * 4 := a, n * 4 + 1 := b, n * 4 + 2 := c, n * 4 + 3 := e] ! (n * 4 + 2) = c"
      using assms unfolding e by simp
    with True 3 show ?thesis unfolding e by simp
  next
    case 4
    with i have e: "i = n * 4 + 3" by simp
    have "d[n * 4 := a, n * 4 + 1 := b, n * 4 + 2 := c, n * 4 + 3 := e] ! (n * 4 + 3) = e"
      using assms unfolding e by simp
    with True 4 show ?thesis unfolding e by simp
  qed
next
  case False
  then have "i \<noteq> n * 4" "i \<noteq> n * 4 + 1" "i \<noteq> n * 4 + 2" "i \<noteq> n * 4 + 3"
    by auto
  with False show ?thesis by simp
qed

lemma quad_nth:
  "m < 4 \<Longrightarrow> [byte_at s si, byte_at s (si + 1), byte_at s (si + 2), 255] ! m =
     (if m = 3 then 255 else byte_at s (si + int m))"
proof -
  assume "m < 4"
  then consider "m = 0" | "m = 1" | "m = 2" | "m = 3" by linarith
  then show ?thesis by cases simp_all
qed

lemma write_pixel_nth:
  assumes "i < length dest"
  shows "write_pixel source iw ih width y sampler x dest ! i =
     (if i div 4 = y * width + x then pixel_byte source iw ih sampler x y (i mod 4) else dest ! i)"
  unfolding write_pixel_def Let_def four_updates_nth [OF assms] pixel_byte_def
  by (simp only: quad_nth [of "i mod 4", simplified])

lemma fold_write_pixel_length [simp]:
  "length (fold (write_pixel source iw ih width y sampler) xs dest) = length dest"
  by (induction xs arbitrary: dest) simp_all

lemma render_row_length [simp]:
  "length (render_row source iw ih width sampler y dest) = length dest"
  by (simp add: render_row_def)

lemma fold_render_row_length [simp]:
  "length (fold (render_row source iw ih width sampler) ys dest) = length dest"
  by (induction ys arbitrary: dest) simp_all

lemma fold_write_pixel_nth:
  assumes "i < length dest"
  shows "fold (write_pixel source iw ih width y sampler) [0..<k] dest ! i =
     (if y * width \<le> i div 4 \<and> i div 4 < y * width + k
      then pixel_byte source iw ih sampler (i div 4 - y * width) y (i mod 4)
      else dest ! i)"
proof (induction k)
  case 0
  show ?case by auto
next
  case (Suc k)
  let ?d = "fold (write_pixel source iw ih width y sampler) [0..<k] dest"
  have len: "i < length ?d" using assms by simp
  have "fold (write_pixel source iw ih width y sampler) [0..<Suc k] dest ! i =
      write_pixel source iw ih width y sampler k ?d ! i"
    by simp
  also have "\<dots> = (if i div 4 = y * width + k
      then pixel_byte source iw ih sampler k y (i mod 4) else ?d ! i)"
    by (rule write_pixel_nth [OF len])
  finally show ?case unfolding Suc.IH by auto
qed

lemma render_row_nth:
  assumes "i < length dest" and "0 < width"
  shows "render_row source iw ih width sampler y dest ! i =
     (if i div 4 div width = y
      then pixel_byte source iw ih sampler (i div 4 mod width) y (i mod 4)
      else dest ! i)"
proof -
  define q where "q = i div 4"
  have dm: "q = q div width * width + q mod width" by simp
  have ml: "q mod width < width" using assms(2) by simp
  have range: "(y * width \<le> q \<and> q < y * width + width) \<longleftrightarrow> q div width = y"
  proof
    assume a: "y * width \<le> q \<and> q < y * width + width"
    then have "q div width \<ge> y" using assms(2) by (simp add: less_eq_div_iff_mult_less_eq)
    moreover have "q < Suc y * width" using a by simp
    then have "q div width < Suc y" using assms(2) by (simp add: div_less_iff_less_mult)
    ultimately show "q div width = y" by simp
  next
    assume e: "q div width = y"
    show "y * width \<le> q \<and> q < y * width + width"
      using dm ml unfolding e by linarith
  qed
  have off: "q div width = y \<Longrightarrow> q - y * width = q mod width"
    by (metis add_diff_cancel_left' div_mult_mod_eq)
  show ?thesis
    unfolding render_row_def fold_write_pixel_nth [OF assms(1)] q_def [symmetric] range
    using off by simp
qed

lemma fold_render_row_nth:
  assumes "i < length dest" and "0 < width"
  shows "fold (render_row source iw ih width sampler) [0..<m] dest ! i =
     (if i div 4 div width < m
      then pixel_byte source iw ih sampler (i div 4 mod width) (i div 4 div width) (i mod 4)
      else dest ! i)"
proof (induction m)
  case 0
  show ?case by simp
next
  case (Suc m)
  let ?d = "fold (render_row source iw ih width sampler) [0..<m] dest"
  have len: "i < length ?d" using assms by simp
  have "fold (render_row source iw ih width sampler) [0..<Suc m] dest ! i =
      render_row source iw ih width sampler m ?d ! i"
    by simp
  also have "\<dots> = (if i div 4 div width = m
      then pixel_byte source iw ih sampler (i div 4 mod width) m (i mod 4) else ?d ! i)"
    by (rule render_row_nth [OF len assms(2)])
  finally show ?case unfolding Suc.IH by auto
qed

lemma render_pixels_nth:
  assumes "x < width" and "y < height" and "c < 4"
  shows "render_pixels source iw ih width height sampler ! ((y * width + x) * 4 + c) =
     pixel_byte source iw ih sampler x y c"
proof -
  let ?i = "(y * width + x) * 4 + c"
  have w: "0 < width" using assms(1) by simp
  have "y * width + x < y * width + width" using assms(1) by simp
  also have "\<dots> = Suc y * width" by simp
  also have "\<dots> \<le> height * width" using assms(2) by (intro mult_le_mono1) simp
  finally have px: "y * width + x < width * height" by (simp add: mult.commute)
  then have len: "?i < length (replicate (width * height * 4) (0 :: 8 word))"
    using assms(3) by simp
  have q: "?i div 4 = y * width + x" using assms(3) by simp
  have m: "?i mod 4 = c" using assms(3) by (metis mod_less mod_mult_self3)
  have qd: "(y * width + x) div width = y" using assms(1) by simp
  have qm: "(y * width + x) mod width = x" using assms(1) by simp
  show ?thesis
    unfolding render_pixels_def fold_render_row_nth [OF len w] q m qd qm
    using assms(2) by simp
qed

lemma render_pixels_length:
  "length (render_pixels source iw ih width height sampler) = width * height * 4"
  by (simp add: render_pixels_def)

lemma srcIndex_nearest:
  assumes "0 < iw" and "0 < ih"
  shows "srcIndex iw ih (sx, sy) =
     ((if \<lfloor>sy\<rfloor> < 0 then 0 else if ih \<le> \<lfloor>sy\<rfloor> then ih - 1 else \<lfloor>sy\<rfloor>) * iw + \<lfloor>sx\<rfloor> mod iw) * 4"
  unfolding srcIndex_def fst_conv snd_conv wrappedSrcX_mod [OF assms(1)] wrappedSrcY_cases [OF assms(2)]
  by (rule refl)

lemma source_index_in_range:
  fixes iw ih row col :: int
  assumes "0 < iw" and "0 \<le> row" and "row \<le> ih - 1" and "0 \<le> col" and "col < iw"
  shows "0 \<le> (row * iw + col) * 4 \<and> (row * iw + col) * 4 + 3 < iw * ih * 4"
proof -
  have "row * iw \<le> (ih - 1) * iw" using assms by (intro mult_right_mono) simp_all
  then have "row * iw + col < (ih - 1) * iw + iw" using assms by linarith
  also have "\<dots> = iw * ih" by (simp add: algebra_simps)
  finally have up: "row * iw + col < iw * ih" .
  have "0 \<le> row * iw" using assms by simp
  then have lo: "0 \<le> row * iw + col" using assms by linarith
  define t u where "t = row * iw + col" and "u = iw * ih"
  from lo up have "0 \<le> t" and "t < u" by (simp_all add: t_def u_def)
  then have "0 \<le> t * 4 \<and> t * 4 + 3 < u * 4" by linarith
  then show ?thesis unfolding t_def u_def .
qed

text \<open>
  C5. For an image of positive size and every destination pixel \<open>(x, y)\<close> of the canvas,
  the rasterizer takes the floor of the sample coordinates, takes the column modulo the
  image width and clamps the row into \<open>[0, imageHeight - 1]\<close>, copies the red, green and
  blue bytes of that one source pixel (whose index lies inside an image buffer of
  \<open>imageWidth * imageHeight * 4\<close> bytes) and writes alpha 255. A source X of
  \<open>imageWidth + k\<close> gives the same column as \<open>k\<close> for every integer \<open>k\<close>; a negative
  source Y gives row 0 and a source Y of at least \<open>imageHeight\<close> gives row
  \<open>imageHeight - 1\<close>.
\<close>

theorem rasterizer_nearest_neighbour:
  assumes "0 < iw" and "0 < ih" and "x < width" and "y < height"
  shows "(let (sx, sy) = sampler x y;
              col = \<lfloor>sx\<rfloor> mod iw;
              row = (if \<lfloor>sy\<rfloor> < 0 then 0 else if ih \<le> \<lfloor>sy\<rfloor> then ih - 1 else \<lfloor>sy\<rfloor>);
              si = (row * iw + col) * 4;
              di = (y * width + x) * 4;
              dest = render_pixels source iw ih width height sampler
          in dest ! di = byte_at source si \<and>
             dest ! (di + 1) = byte_at source (si + 1) \<and>
             dest ! (di + 2) = byte_at source (si + 2) \<and>
             dest ! (di + 3) = 255 \<and>
             0 \<le> si \<and> si + 3 < iw * ih * 4) \<and>
         wrappedSrcX iw (real_of_int (iw + k)) = wrappedSrcX iw (real_of_int k) \<and>
         (sy' < 0 \<longrightarrow> wrappedSrcY ih sy' = 0) \<and>
         (real_of_int ih \<le> sy' \<longrightarrow> wrappedSrcY ih sy' = ih - 1)"
proof -
  obtain sx sy where s: "sampler x y = (sx, sy)" by (cases "sampler x y")
  define col where "col = \<lfloor>sx\<rfloor> mod iw"
  define row where "row = (if \<lfloor>sy\<rfloor> < 0 then 0 else if ih \<le> \<lfloor>sy\<rfloor> then ih - 1 else \<lfloor>sy\<rfloor>)"
  have si: "srcIndex iw ih (sampler x y) = (row * iw + col) * 4"
    unfolding s row_def col_def by (rule srcIndex_nearest [OF assms(1,2)])
  have col: "0 \<le> col" "col < iw" using assms(1) by (simp_all add: col_def)
  have row: "0 \<le> row" "row \<le> ih - 1" using assms(2) by (auto simp: row_def)
  note rng = source_index_in_range [OF assms(1) row col]
  have b: "render_pixels source iw ih width height sampler ! ((y * width + x) * 4 + c) =
      (if c = 3 then 255 else byte_at source ((row * iw + col) * 4 + int c))" if "c < 4" for c
    using render_pixels_nth [OF assms(3,4) that, of source iw ih sampler]
    by (simp add: pixel_byte_def si)
  have b0: "render_pixels source iw ih width height sampler ! ((y * width + x) * 4) =
      byte_at source ((row * iw + col) * 4)"
    using b [of 0] by simp
  have b1: "render_pixels source iw ih width height sampler ! ((y * width + x) * 4 + 1) =
      byte_at source ((row * iw + col) * 4 + 1)"
    using b [of 1] by simp
  have b2: "render_pixels source iw ih width height sampler ! ((y * width + x) * 4 + 2) =
      byte_at source ((row * iw + col) * 4 + 2)"
    using b [of 2] by simp
  have b3: "render_pixels source iw ih width height sampler ! ((y * width + x) * 4 + 3) = 255"
    using b [of 3] by simp
  have px: "(let (sx, sy) = sampler x y;
              col = \<lfloor>sx\<rfloor> mod iw;
              row = (if \<lfloor>sy\<rfloor> < 0 then 0 else if ih \<le> \<lfloor>sy\<rfloor> then ih - 1 else \<lfloor>sy\<rfloor>);
              si = (row * iw + col) * 4;
              di = (y * width + x) * 4;
              dest = render_pixels source iw ih width height sampler
          in dest ! di = byte_at source si \<and>
             dest ! (di + 1) = byte_at source (si + 1) \<and>
             dest ! (di + 2) = byte_at source (si + 2) \<and>
             dest ! (di + 3) = 255 \<and>
             0 \<le> si \<and> si + 3 < iw * ih * 4)"
    unfolding s Let_def prod.case col_def [symmetric] row_def [symmetric]
    using b0 b1 b2 b3 rng by blast
  have "\<lfloor>real_of_int (iw + k)\<rfloor> mod iw = \<lfloor>real_of_int k\<rfloor> mod iw"
    unfolding floor_of_int by simp
  then have wrap: "wrappedSrcX iw (real_of_int (iw + k)) = wrappedSrcX iw (real_of_int k)"
    unfolding wrappedSrcX_mod [OF assms(1)] .
  have lo: "sy' < 0 \<longrightarrow> wrappedSrcY ih sy' = 0"
    unfolding wrappedSrcY_cases [OF assms(2)] by (simp add: floor_less_iff)
  have hi: "real_of_int ih \<le> sy' \<longrightarrow> wrappedSrcY ih sy' = ih - 1"
  proof
    assume "real_of_int ih \<le> sy'"
    then have f: "ih \<le> \<lfloor>sy'\<rfloor>" by (simp add: le_floor_iff)
    have "(if f < 0 then 0 else if ih \<le> f then ih - 1 else f) = ih - 1" if "ih \<le> f" for f :: int
      using that assms(2) by simp
    from this [OF f] show "wrappedSrcY ih sy' = ih - 1"
      unfolding wrappedSrcY_cases [OF assms(2)] .
  qed
  from px wrap lo hi show ?thesis by blast
qed

text \<open>
  \<open>render\<close> puts exactly this buffer on the canvas, sampled through \<open>projectToSource\<close>
  with the camera state converted to radians.
\<close>

lemma render_canvasData:
  assumes "isDirty r" and "image_el r = Some img"
  shows "canvasData (render r) =
     render_pixels (case sourceData r of None \<Rightarrow> img_data img | Some d \<Rightarrow> d)
       (int (img_width img)) (int (img_height img)) (canvas_width r) (canvas_height r)
       (pixel_sampler (canvas_width r) (canvas_height r) (int (img_width img)) (int (img_height img))
          (yaw (state r)) (pitch (state r)) (zoom (state r)) (degToRad (fov (config r)))
          (projectionType r))"
  using assms by (cases "sourceData r") (simp_all add: render_def Let_def)

theorem rasterizer_nearest_neighbour_witness:
  "render_pixels (img_data (white_image 1024 512)) 1024 512 800 600
      (pixel_sampler 800 600 1024 512 0 0 1 (degToRad 90) EQUIDISTANT) ! 0 = 255 \<and>
   render_pixels (img_data (white_image 1024 512)) 1024 512 800 600
      (pixel_sampler 800 600 1024 512 0 0 1 (degToRad 90) EQUIDISTANT) ! 3 = 255 \<and>
   wrappedSrcX 1024 (real_of_int (1024 + 5)) = wrappedSrcX 1024 (real_of_int 5) \<and>
   wrappedSrcY 512 (- 1) = 0 \<and>
   wrappedSrcY 512 600 = 511"
proof -
  let ?S = "pixel_sampler 800 600 1024 512 0 0 1 (degToRad 90) EQUIDISTANT"
  let ?src = "img_data (white_image 1024 512)"
  let ?dest = "render_pixels ?src 1024 512 800 600 ?S"
  obtain sx sy where s: "?S 0 0 = (sx, sy)" by (cases "?S 0 0")
  define si :: int where
    "si = ((if \<lfloor>sy\<rfloor> < 0 then 0 else if 512 \<le> \<lfloor>sy\<rfloor> then 512 - 1 else \<lfloor>sy\<rfloor>) * 1024 + \<lfloor>sx\<rfloor> mod 1024) * 4"
  have h: "(0::int) < 1024" "(0::int) < 512" "(0::nat) < 800" "(0::nat) < 600" by simp_all
  note t1 = rasterizer_nearest_neighbour
    [OF h, where sampler = ?S and source = ?src and k = 5 and sy' = "- 1",
     unfolded s Let_def prod.case si_def [symmetric]]
  note t2 = rasterizer_nearest_neighbour
    [OF h, where sampler = ?S and source = ?src and k = 5 and sy' = 600,
     unfolded s Let_def prod.case si_def [symmetric]]
  from t1 have d0: "?dest ! 0 = byte_at ?src si" and d3: "?dest ! 3 = 255"
    and lo: "0 \<le> si" and hi: "si + 3 < 1024 * 512 * 4"
    by simp_all
  have "byte_at ?src si = 255" using lo hi by (simp add: byte_at_def white_image_def)
  with d0 have r0: "?dest ! 0 = 255" by simp
  from t1 have w: "wrappedSrcX 1024 (real_of_int (1024 + 5)) = wrappedSrcX 1024 (real_of_int 5)"
    and y0: "wrappedSrcY 512 (- 1) = 0" by simp_all
  from t2 have y1: "wrappedSrcY 512 600 = 511" by simp
  from r0 d3 w y0 y1 show ?thesis by blast
qed

end
